theory Spec2Isabelle
  imports Complex_Main "HOL-Library.Char_ord" "HOL-Library.List_Lexorder"
begin

section \<open>Data model\<close>

text \<open>
  The transformer of \<^verbatim>\<open>yahoo_stock_price_etl/transformer.py\<close> works on one pandas
  DataFrame, \<^verbatim>\<open>self.df\<close>, whose row labels are the pairs (Date, Ticker) and whose
  columns hold numbers. A cell is a number or missing (NaN): \<open>None\<close> is the missing
  value. Numbers are modelled as reals, so rounding of the machine floats is not part
  of the model. A date is the parsed timestamp, an integer.

  A column is kept with its name in an association list, in the order of
  \<^verbatim>\<open>df.columns\<close>.
\<close>

type_synonym cell = "real option"
type_synonym date = int
type_synonym key = "date \<times> string"
type_synonym columns = "(string \<times> cell list) list"

record panel =
  index :: "key list"
  columns :: columns

text \<open>
  A frame with the default row labels (what \<^verbatim>\<open>pd.read_csv(..., index_col=None)\<close>
  returns and what \<^verbatim>\<open>to_csv(..., index=False)\<close> writes): an optional Date column,
  an optional Ticker column and the numeric columns.
\<close>

record table =
  Date :: "date list option"
  Ticker :: "string list option"
  cols :: columns

datatype error =
    FileNotFoundError string
  | KeyError string
  | ValueError string

text \<open>A frame is rectangular and its column names are distinct.\<close>

definition wf_panel :: "panel \<Rightarrow> bool" where
  "wf_panel df \<longleftrightarrow>
     distinct (map fst (columns df)) \<and>
     list_all (\<lambda>c. length (snd c) = length (index df)) (columns df)"

subsection \<open>Reading and writing a column\<close>

text \<open>\<^verbatim>\<open>df[col]\<close>: the column, or KeyError when the frame has no such column.\<close>

definition getitem :: "panel \<Rightarrow> string \<Rightarrow> error + cell list" where
  "getitem df col =
     (case map_of (columns df) col of
        None \<Rightarrow> Inl (KeyError col)
      | Some xs \<Rightarrow> Inr xs)"

text \<open>
  \<^verbatim>\<open>df[col] = values\<close> for values already in the row order of the frame: an existing
  column is replaced in place, a new one is appended.
\<close>

fun setcol :: "string \<Rightarrow> cell list \<Rightarrow> columns \<Rightarrow> columns" where
  "setcol col v [] = [(col, v)]"
| "setcol col v (p # ps) = (if fst p = col then (col, v) # ps else p # setcol col v ps)"

definition setitem :: "panel \<Rightarrow> string \<Rightarrow> cell list \<Rightarrow> panel" where
  "setitem df col v = df\<lparr>columns := setcol col v (columns df)\<rparr>"

section \<open>Cleaning\<close>

text \<open>
  \<^verbatim>\<open>Series.ffill()\<close>: a missing cell takes the last value seen above it, and stays
  missing when there is none.
\<close>

fun ffill_from :: "cell \<Rightarrow> cell list \<Rightarrow> cell list" where
  "ffill_from prev [] = []"
| "ffill_from prev (x # xs) =
     (case x of
        None \<Rightarrow> prev # ffill_from prev xs
      | Some v \<Rightarrow> Some v # ffill_from (Some v) xs)"

definition ffill :: "cell list \<Rightarrow> cell list" where
  "ffill xs = ffill_from None xs"

text \<open>
  \<^verbatim>\<open>Series.bfill()\<close>: a missing cell takes the next value below it, and stays missing
  when there is none.
\<close>

fun bfill :: "cell list \<Rightarrow> cell list" where
  "bfill [] = []"
| "bfill (x # xs) =
     (let r = bfill xs in
      (case x of
         Some v \<Rightarrow> Some v
       | None \<Rightarrow> (case r of [] \<Rightarrow> None | y # _ \<Rightarrow> y)) # r)"

definition price_columns :: "string list" where
  "price_columns = [''Open'', ''High'', ''Low'', ''Close'', ''Adj Close'']"

text \<open>
  One turn of the loop of \<^verbatim>\<open>_clean\<close>:
  \<^verbatim>\<open>
  if col in ["Open", "High", "Low", "Close", "Adj Close"]:
      self.df[col] = self.df[col].ffill()
  elif col == "Volume":
      self.df[col] = self.df[col].bfill()
  \<close>
\<close>

definition clean_step :: "string \<Rightarrow> panel \<Rightarrow> error + panel" where
  "clean_step col df =
     (if col \<in> set price_columns then
        (case getitem df col of
           Inl e \<Rightarrow> Inl e
         | Inr xs \<Rightarrow> Inr (setitem df col (ffill xs)))
      else if col = ''Volume'' then
        (case getitem df col of
           Inl e \<Rightarrow> Inl e
         | Inr xs \<Rightarrow> Inr (setitem df col (bfill xs)))
      else Inr df)"

fun clean_loop :: "string list \<Rightarrow> panel \<Rightarrow> error + panel" where
  "clean_loop [] df = Inr df"
| "clean_loop (col # rest) df =
     (case clean_step col df of
        Inl e \<Rightarrow> Inl e
      | Inr df' \<Rightarrow> clean_loop rest df')"

text \<open>\<^verbatim>\<open>_clean\<close>: the loop runs over the column names of the frame.\<close>

definition clean :: "panel \<Rightarrow> error + panel" where
  "clean df = clean_loop (map fst (columns df)) df"

text \<open>
  The words of the specification for the two fills: the last known value at or above
  row \<open>i\<close>, and the next known value at or below it.
\<close>

definition last_known :: "cell list \<Rightarrow> nat \<Rightarrow> cell" where
  "last_known xs i =
     (case filter (\<lambda>x. x \<noteq> None) (rev (take (Suc i) xs)) of
        [] \<Rightarrow> None
      | y # _ \<Rightarrow> y)"

definition next_known :: "cell list \<Rightarrow> nat \<Rightarrow> cell" where
  "next_known xs i =
     (case filter (\<lambda>x. x \<noteq> None) (drop i xs) of
        [] \<Rightarrow> None
      | y # _ \<Rightarrow> y)"

text \<open>What \<^verbatim>\<open>_clean\<close> does to the column named \<open>col\<close>.\<close>

definition fill :: "string \<Rightarrow> cell list \<Rightarrow> cell list" where
  "fill col xs =
     (if col \<in> set price_columns then ffill xs
      else if col = ''Volume'' then bfill xs
      else xs)"

section \<open>Grouping by ticker\<close>

text \<open>
  \<^verbatim>\<open>groupby("Ticker")\<close> and \<^verbatim>\<open>groupby(level="Ticker")\<close>: the groups are taken in
  the sorted order of the ticker symbols, and the rows of a group keep the row order
  of the frame. Nothing in the transformer sorts rows by date.
\<close>

definition group_names :: "key list \<Rightarrow> string list" where
  "group_names ks = sort (remdups (map snd ks))"

definition group_keys :: "string \<Rightarrow> key list \<Rightarrow> key list" where
  "group_keys t ks = filter (\<lambda>k. snd k = t) ks"

definition group_values :: "string \<Rightarrow> key list \<Rightarrow> cell list \<Rightarrow> cell list" where
  "group_values t ks xs = map snd (filter (\<lambda>p. snd (fst p) = t) (zip ks xs))"

text \<open>
  A Series: labelled values. The result of a grouped window computation followed by
  \<^verbatim>\<open>.reset_index(level=0, drop=True)\<close> is labelled by (Date, Ticker) and lists
  group after group.
\<close>

type_synonym series = "(key \<times> cell) list"

definition groupby_apply :: "(cell list \<Rightarrow> cell list) \<Rightarrow> key list \<Rightarrow> cell list \<Rightarrow> series" where
  "groupby_apply f ks xs =
     concat (map (\<lambda>t. zip (group_keys t ks) (f (group_values t ks xs))) (group_names ks))"

text \<open>
  A grouped computation that returns its values in the row order of the frame
  (\<^verbatim>\<open>pct_change\<close>): row \<open>i\<close> takes the value at its rank inside its own group.
\<close>

definition rank_in_group :: "key list \<Rightarrow> nat \<Rightarrow> nat" where
  "rank_in_group ks i = length (filter (\<lambda>k. snd k = snd (ks ! i)) (take i ks))"

definition groupby_transform :: "(cell list \<Rightarrow> cell list) \<Rightarrow> key list \<Rightarrow> cell list \<Rightarrow> cell list" where
  "groupby_transform f ks xs =
     map (\<lambda>i. f (group_values (snd (ks ! i)) ks xs) ! rank_in_group ks i) [0..<length ks]"

text \<open>
  \<^verbatim>\<open>df[col] = series\<close>: the values are aligned on the labels of the frame. pandas
  takes the values as they are when the labels of the series equal those of the frame
  (or the frame has no rows); otherwise it reindexes the series, which raises
  ValueError when the labels of the series are not unique, and gives NaN for a label
  the series lacks.
\<close>

definition reindex :: "series \<Rightarrow> key list \<Rightarrow> cell list" where
  "reindex s ks = map (\<lambda>k. case map_of s k of None \<Rightarrow> None | Some v \<Rightarrow> v) ks"

definition setitem_series :: "panel \<Rightarrow> string \<Rightarrow> series \<Rightarrow> error + panel" where
  "setitem_series df col s =
     (if map fst s = index df \<or> index df = [] then Inr (setitem df col (map snd s))
      else if \<not> distinct (map fst s) then
        Inl (ValueError ''cannot reindex on an axis with duplicate labels'')
      else Inr (setitem df col (reindex s (index df))))"

section \<open>Column names\<close>

text \<open>Python's \<^verbatim>\<open>str\<close> of an integer, used by \<^verbatim>\<open>str.format\<close> in the column names.\<close>

definition digit :: "nat \<Rightarrow> char" where
  "digit n = ''0123456789'' ! n"

fun str_nat :: "nat \<Rightarrow> string" where
  "str_nat n = (if n < 10 then [digit n] else str_nat (n div 10) @ [digit (n mod 10)])"

declare str_nat.simps [simp del]

definition str_int :: "int \<Rightarrow> string" where
  "str_int i = (if i < 0 then ''-'' @ str_nat (nat (- i)) else str_nat (nat i))"

text \<open>\<^verbatim>\<open>ROLL_AVG_DAYS_COLUMN_TEMPLATE.format(window=window)\<close>\<close>

definition roll_avg_days_column :: "int \<Rightarrow> string" where
  "roll_avg_days_column window = ''RollAvg'' @ str_int window @ ''Days''"

text \<open>\<^verbatim>\<open>EMA_COLUMN_TEMPLATE.format(span=span)\<close>\<close>

definition ema_column :: "int \<Rightarrow> string" where
  "ema_column span' = ''EMA'' @ str_int span'"

definition TARGET_FILE_NAME :: string where
  "TARGET_FILE_NAME = ''transformed_data''"

definition SOURCE_FILE_NAME :: string where
  "SOURCE_FILE_NAME = ''transformed_data''"

section \<open>Daily return\<close>

text \<open>
  \<^verbatim>\<open>SeriesGroupBy.pct_change()\<close> is \<^verbatim>\<open>filled / filled.shift(1) - 1\<close> inside each
  group, where \<^verbatim>\<open>filled\<close> is the group forward-filled (the default
  \<^verbatim>\<open>fill_method\<close>). The first row of a group has nothing before it and is missing.
  A quotient by zero is not a finite number; the model gives it as missing.
\<close>

definition shift1 :: "cell list \<Rightarrow> cell list" where
  "shift1 xs = (case xs of [] \<Rightarrow> [] | _ # _ \<Rightarrow> None # butlast xs)"

definition ratio_change :: "cell \<Rightarrow> cell \<Rightarrow> cell" where
  "ratio_change cur prev =
     (case (cur, prev) of
        (Some x, Some y) \<Rightarrow> if y = 0 then None else Some (x / y - 1)
      | _ \<Rightarrow> None)"

definition pct_change :: "cell list \<Rightarrow> cell list" where
  "pct_change xs = (let filled = ffill xs in map2 ratio_change filled (shift1 filled))"

text \<open>
  \<^verbatim>\<open>self.df["DailyReturn"] = self.df.groupby("Ticker")["Close"].pct_change()\<close>
  The result has the labels of the frame, in its row order.
\<close>

definition add_daily_return :: "panel \<Rightarrow> error + panel" where
  "add_daily_return df =
     (case getitem df ''Close'' of
        Inl e \<Rightarrow> Inl e
      | Inr close \<Rightarrow>
          Inr (setitem df ''DailyReturn'' (groupby_transform pct_change (index df) close)))"

section \<open>Rolling average\<close>

text \<open>
  \<^verbatim>\<open>.rolling(window=window, min_periods=1).mean()\<close>: the window of row \<open>i\<close> is the
  row and the \<open>window - 1\<close> rows before it, fewer at the start. The mean is taken over
  the values present in the window and needs at least \<^verbatim>\<open>min_periods\<close> of them;
  with fewer the result is missing.
\<close>

definition min_periods :: nat where
  "min_periods = 1"

definition observed :: "cell list \<Rightarrow> real list" where
  "observed w = map the (filter (\<lambda>x. x \<noteq> None) w)"

definition window_mean :: "cell list \<Rightarrow> cell" where
  "window_mean w =
     (let obs = observed w
      in if min_periods \<le> length obs then Some (sum_list obs / real (length obs)) else None)"

definition trailing_window :: "nat \<Rightarrow> cell list \<Rightarrow> nat \<Rightarrow> cell list" where
  "trailing_window w xs i = drop (Suc i - w) (take (Suc i) xs)"

definition rolling_mean :: "nat \<Rightarrow> cell list \<Rightarrow> cell list" where
  "rolling_mean w xs = map (\<lambda>i. window_mean (trailing_window w xs i)) [0..<length xs]"

text \<open>
  \<^verbatim>\<open>_add_rolling_average\<close>. pandas refuses a window below \<^verbatim>\<open>min_periods\<close>
  with ValueError.
\<close>

definition add_rolling_average :: "int \<Rightarrow> panel \<Rightarrow> error + panel" where
  "add_rolling_average window df =
     (case getitem df ''Close'' of
        Inl e \<Rightarrow> Inl e
      | Inr close \<Rightarrow>
          if window < int min_periods then Inl (ValueError ''min_periods must be <= window'')
          else setitem_series df (roll_avg_days_column window)
                 (groupby_apply (rolling_mean (nat window)) (index df) close))"

section \<open>Exponential moving average\<close>

text \<open>
  \<^verbatim>\<open>.ewm(span=span, adjust=False).mean()\<close>, with pandas' defaults
  \<^verbatim>\<open>ignore_na=False\<close> and \<^verbatim>\<open>min_periods=0\<close>. The smoothing factor is
  \<open>\<alpha> = 2 / (span + 1)\<close>. The running average \<open>weighted\<close> starts at the first value.
  A later value \<open>cur\<close> that is present updates it to
  \<open>(old_wt * weighted + \<alpha> * cur) / (old_wt + \<alpha>)\<close>, where \<open>old_wt\<close> is \<open>1 - \<alpha>\<close>
  to the power of the number of rows since the last value that was present; a missing
  value leaves \<open>weighted\<close> as it is and ages \<open>old_wt\<close>. Until a first value is present
  the output is missing.
\<close>

definition ewm_alpha :: "int \<Rightarrow> real" where
  "ewm_alpha span' = 2 / (real_of_int span' + 1)"

definition is_observation :: "cell \<Rightarrow> nat" where
  "is_observation x = (if x = None then 0 else 1)"

fun ewm_loop :: "real \<Rightarrow> cell \<Rightarrow> real \<Rightarrow> nat \<Rightarrow> cell list \<Rightarrow> cell list" where
  "ewm_loop \<alpha> weighted old_wt nobs [] = []"
| "ewm_loop \<alpha> weighted old_wt nobs (cur # rest) =
     (let nobs' = nobs + is_observation cur;
          st = (case weighted of
                  Some w \<Rightarrow>
                    (let aged = old_wt * (1 - \<alpha>)
                     in case cur of
                          Some c \<Rightarrow>
                            (Some (if w \<noteq> c then (aged * w + \<alpha> * c) / (aged + \<alpha>) else w), 1)
                        | None \<Rightarrow> (Some w, aged))
                | None \<Rightarrow> (cur, old_wt))
      in (if 1 \<le> nobs' then fst st else None) # ewm_loop \<alpha> (fst st) (snd st) nobs' rest)"

definition ewm_mean :: "real \<Rightarrow> cell list \<Rightarrow> cell list" where
  "ewm_mean \<alpha> xs =
     (case xs of
        [] \<Rightarrow> []
      | x # rest \<Rightarrow>
          (if 1 \<le> is_observation x then x else None) # ewm_loop \<alpha> x 1 (is_observation x) rest)"

text \<open>\<^verbatim>\<open>_add_ema\<close>. pandas refuses a span below 1 with ValueError.\<close>

definition add_ema :: "int \<Rightarrow> panel \<Rightarrow> error + panel" where
  "add_ema span' df =
     (case getitem df ''Close'' of
        Inl e \<Rightarrow> Inl e
      | Inr close \<Rightarrow>
          if span' < 1 then Inl (ValueError ''span must satisfy: span >= 1'')
          else setitem_series df (ema_column span')
                 (groupby_apply (ewm_mean (ewm_alpha span')) (index df) close))"

section \<open>Crossover\<close>

text \<open>
  \<^verbatim>\<open>
  crossover = (self.df[roll_col] > self.df[ema_col]).astype(int)
            - (self.df[roll_col] < self.df[ema_col]).astype(int)
  self.df["Crossover"] = crossover
  \<close>
  A comparison with a missing value is False.
\<close>

definition gt_cell :: "cell \<Rightarrow> cell \<Rightarrow> bool" where
  "gt_cell a b = (case (a, b) of (Some x, Some y) \<Rightarrow> x > y | _ \<Rightarrow> False)"

definition lt_cell :: "cell \<Rightarrow> cell \<Rightarrow> bool" where
  "lt_cell a b = (case (a, b) of (Some x, Some y) \<Rightarrow> x < y | _ \<Rightarrow> False)"

definition astype_int :: "bool \<Rightarrow> int" where
  "astype_int b = (if b then 1 else 0)"

definition crossover_cell :: "cell \<Rightarrow> cell \<Rightarrow> cell" where
  "crossover_cell r e = Some (real_of_int (astype_int (gt_cell r e) - astype_int (lt_cell r e)))"

definition add_time_series_analysis :: "int \<Rightarrow> int \<Rightarrow> panel \<Rightarrow> error + panel" where
  "add_time_series_analysis roll_window ema_span df =
     (case getitem df (roll_avg_days_column roll_window) of
        Inl e \<Rightarrow> Inl e
      | Inr roll \<Rightarrow>
          (case getitem df (ema_column ema_span) of
             Inl e \<Rightarrow> Inl e
           | Inr ema \<Rightarrow> Inr (setitem df ''Crossover'' (map2 crossover_cell roll ema))))"

section \<open>The staged files\<close>

text \<open>
  The stages exchange CSV files. The store maps a path to the content of the file
  there; a path without a file makes \<^verbatim>\<open>pd.read_csv\<close> raise FileNotFoundError.
\<close>

type_synonym store = "string \<Rightarrow> table option"

definition read_csv :: "store \<Rightarrow> string \<Rightarrow> error + table" where
  "read_csv st path =
     (case st path of
        None \<Rightarrow> Inl (FileNotFoundError path)
      | Some f \<Rightarrow> Inr f)"

text \<open>
  \<^verbatim>\<open>BaseETL._get_path\<close>:
  \<^verbatim>\<open>"{common_path}{phase_name}".format(common_path=self.common_config.get('file_path'), ...)\<close>
\<close>

definition get_path :: "string \<Rightarrow> string \<Rightarrow> string" where
  "get_path file_path phase_name = file_path @ phase_name"

text \<open>\<^verbatim>\<open>os.path.join\<close> on POSIX paths.\<close>

definition path_join :: "string \<Rightarrow> string \<Rightarrow> string" where
  "path_join a b =
     (if b \<noteq> [] \<and> hd b = CHR ''/'' then b
      else if a = [] \<or> last a = CHR ''/'' then a @ b
      else a @ ''/'' @ b)"

text \<open>
  \<^verbatim>\<open>df.to_csv(out_file, index=False)\<close> writes the columns of the frame and not its
  row labels. The row labels of the transformer's frame are (Date, Ticker).
\<close>

definition to_csv_index_False :: "panel \<Rightarrow> table" where
  "to_csv_index_False df = \<lparr>Date = None, Ticker = None, cols = columns df\<rparr>"

text \<open>
  \<^verbatim>\<open>BaseETL._save_to_csv\<close>:
  \<^verbatim>\<open>
  dir_path = os.path.join(base_path, *path)
  os.makedirs(dir_path, exist_ok=True)
  out_file = os.path.join(dir_path, f"{file_name}.csv")
  df.to_csv(out_file, index=False)
  \<close>
\<close>

definition save_to_csv :: "store \<Rightarrow> string \<Rightarrow> string list \<Rightarrow> panel \<Rightarrow> string \<Rightarrow> store" where
  "save_to_csv st base_path path df file_name =
     (let dir_path = foldl path_join base_path path;
          out_file = path_join dir_path (file_name @ ''.csv'')
      in st(out_file \<mapsto> to_csv_index_False df))"

section \<open>Reading and concatenating the raw files\<close>

text \<open>
  A frame inside the loop of \<^verbatim>\<open>_read_and_concatenate\<close>, after
  \<^verbatim>\<open>df['Date'] = pd.to_datetime(df['Date'])\<close> and \<^verbatim>\<open>df['Ticker'] = ticker\<close>: it has a
  Date and a Ticker column. A file without a Date column raises KeyError.
\<close>

record tagged =
  tagged_dates :: "date list"
  tagged_tickers :: "string list"
  tagged_data :: columns

definition tag_ticker :: "string \<Rightarrow> table \<Rightarrow> error + tagged" where
  "tag_ticker ticker f =
     (case Date f of
        None \<Rightarrow> Inl (KeyError ''Date'')
      | Some ds \<Rightarrow>
          Inr \<lparr>tagged_dates = ds,
               tagged_tickers = replicate (length ds) ticker,
               tagged_data = cols f\<rparr>)"

fun read_tickers :: "store \<Rightarrow> string \<Rightarrow> string list \<Rightarrow> error + tagged list" where
  "read_tickers st base_path [] = Inr []"
| "read_tickers st base_path (ticker # rest) =
     (case read_csv st (base_path @ ''/'' @ ticker @ ''.csv'') of
        Inl e \<Rightarrow> Inl e
      | Inr f \<Rightarrow>
          (case tag_ticker ticker f of
             Inl e \<Rightarrow> Inl e
           | Inr df \<Rightarrow>
               (case read_tickers st base_path rest of
                  Inl e \<Rightarrow> Inl e
                | Inr dfs \<Rightarrow> Inr (df # dfs))))"

text \<open>
  \<^verbatim>\<open>pd.concat(dfs, ignore_index=True)\<close>: the rows of the frames one after the other.
  The columns are the union of the columns of the frames in the order of first
  appearance; a frame that lacks a column contributes missing values. An empty list of
  frames raises ValueError. A list of frames that all have zero rows is concatenated
  to a frame with zero rows.
\<close>

definition union_names :: "tagged list \<Rightarrow> string list" where
  "union_names dfs = rev (remdups (rev (concat (map (\<lambda>df. map fst (tagged_data df)) dfs))))"

definition concat_column :: "string \<Rightarrow> tagged list \<Rightarrow> cell list" where
  "concat_column col dfs =
     concat (map (\<lambda>df. case map_of (tagged_data df) col of
                          Some xs \<Rightarrow> xs
                        | None \<Rightarrow> replicate (length (tagged_dates df)) None) dfs)"

definition pd_concat :: "tagged list \<Rightarrow> error + tagged" where
  "pd_concat dfs =
     (if dfs = [] then Inl (ValueError ''No objects to concatenate'')
      else Inr \<lparr>tagged_dates = concat (map tagged_dates dfs),
                tagged_tickers = concat (map tagged_tickers dfs),
                tagged_data = map (\<lambda>col. (col, concat_column col dfs)) (union_names dfs)\<rparr>)"

text \<open>
  \<^verbatim>\<open>df_all.set_index(['Date', 'Ticker'], inplace=True)\<close>: the two columns become the
  row labels and are no longer columns. Nothing checks that the labels are unique.
\<close>

definition set_index :: "tagged \<Rightarrow> panel" where
  "set_index df_all =
     \<lparr>index = zip (tagged_dates df_all) (tagged_tickers df_all),
      columns = tagged_data df_all\<rparr>"

definition read_and_concatenate :: "store \<Rightarrow> string \<Rightarrow> string \<Rightarrow> string list \<Rightarrow> error + panel" where
  "read_and_concatenate st file_path extraction_date_str tickers =
     (let base_path = get_path file_path ''extract'' @ ''/'' @ extraction_date_str
      in case read_tickers st base_path tickers of
           Inl e \<Rightarrow> Inl e
         | Inr dfs \<Rightarrow>
             (case pd_concat dfs of
                Inl e \<Rightarrow> Inl e
              | Inr df_all \<Rightarrow> Inr (set_index df_all)))"

text \<open>The path of the raw file of a ticker, as the loop builds it.\<close>

definition raw_path :: "string \<Rightarrow> string \<Rightarrow> string \<Rightarrow> string" where
  "raw_path file_path extraction_date_str ticker =
     get_path file_path ''extract'' @ ''/'' @ extraction_date_str @ ''/'' @ ticker @ ''.csv''"

section \<open>The transform stage\<close>

record config =
  roll_avg_days :: int
  ema_span :: int

text \<open>
  \<^verbatim>\<open>StockDataTransformer.transform\<close> on the frame \<^verbatim>\<open>self.df\<close> that the constructor
  read: clean, daily return, rolling average, EMA, crossover, save. It returns the
  frame; the store is returned with the file written.
\<close>

definition transform :: "config \<Rightarrow> string \<Rightarrow> string \<Rightarrow> panel \<Rightarrow> store \<Rightarrow> error + (panel \<times> store)" where
  "transform cfg file_path extraction_date_str df st =
     (case clean df of
        Inl e \<Rightarrow> Inl e
      | Inr df1 \<Rightarrow>
     (case add_daily_return df1 of
        Inl e \<Rightarrow> Inl e
      | Inr df2 \<Rightarrow>
     (case add_rolling_average (roll_avg_days cfg) df2 of
        Inl e \<Rightarrow> Inl e
      | Inr df3 \<Rightarrow>
     (case add_ema (ema_span cfg) df3 of
        Inl e \<Rightarrow> Inl e
      | Inr df4 \<Rightarrow>
     (case add_time_series_analysis (roll_avg_days cfg) (ema_span cfg) df4 of
        Inl e \<Rightarrow> Inl e
      | Inr df5 \<Rightarrow>
          Inr (df5,
               save_to_csv st (get_path file_path ''transform'') [extraction_date_str] df5
                 TARGET_FILE_NAME))))))"

text \<open>
  The \<^verbatim>\<open>transform\<close> command of \<^verbatim>\<open>app.py\<close>: construct the transformer (which reads
  the raw files), then transform.
\<close>

definition run_transform :: "config \<Rightarrow> string \<Rightarrow> string list \<Rightarrow> string \<Rightarrow> store \<Rightarrow> error + (panel \<times> store)" where
  "run_transform cfg file_path tickers extraction_date_str st =
     (case read_and_concatenate st file_path extraction_date_str tickers of
        Inl e \<Rightarrow> Inl e
      | Inr df \<Rightarrow> transform cfg file_path extraction_date_str df st)"

section \<open>The load stage\<close>

text \<open>\<^verbatim>\<open>StockDataLoader._read\<close> and \<^verbatim>\<open>load\<close>: the file as it was written.\<close>

definition load :: "store \<Rightarrow> string \<Rightarrow> string \<Rightarrow> error + table" where
  "load st file_path extraction_date_str =
     (let base_path = get_path file_path ''transform'' @ ''/'' @ extraction_date_str
      in read_csv st (base_path @ ''/'' @ SOURCE_FILE_NAME @ ''.csv''))"

section \<open>Ascending date order\<close>

text \<open>
  The specification speaks of the rows of a ticker in ascending Date order. The frame
  with its rows sorted by date (stable), and the value of a column on the row with a
  given label, state that reading; the transformer has no such step.
\<close>

definition date_order :: "key list \<Rightarrow> nat list" where
  "date_order ks = sort_key (\<lambda>i. fst (ks ! i)) [0..<length ks]"

definition sort_by_date :: "panel \<Rightarrow> panel" where
  "sort_by_date df =
     (let order = date_order (index df)
      in \<lparr>index = map (\<lambda>i. index df ! i) order,
          columns = map (\<lambda>(n, xs). (n, map (\<lambda>i. xs ! i) order)) (columns df)\<rparr>)"

definition cell_at :: "panel \<Rightarrow> string \<Rightarrow> key \<Rightarrow> cell option" where
  "cell_at df col k =
     (case map_of (columns df) col of
        None \<Rightarrow> None
      | Some xs \<Rightarrow> map_of (zip (index df) xs) k)"

definition feature_at :: "(panel \<Rightarrow> error + panel) \<Rightarrow> string \<Rightarrow> panel \<Rightarrow> key \<Rightarrow> cell option" where
  "feature_at step col df k =
     (case step df of
        Inl e \<Rightarrow> None
      | Inr df' \<Rightarrow> cell_at df' col k)"

section \<open>Sample data\<close>

text \<open>A frame with a leading gap, a gap in the middle and a trailing gap.\<close>

definition gap_panel :: panel where
  "gap_panel =
     \<lparr>index = [(1, ''AAPL''), (2, ''AAPL''), (3, ''AAPL''), (1, ''MSFT'')],
      columns =
        [(''Close'', [None, Some 10, None, Some 7]),
         (''Volume'', [None, Some 100, None, None]),
         (''Dividends'', [None, Some 1, None, None])]\<rparr>"

text \<open>
  A frame that already has a two-day rolling average and a two-span EMA: the rolling
  average is above, equal to and below the EMA, and once each value is missing.
\<close>

definition featured_panel :: panel where
  "featured_panel =
     \<lparr>index = [(1, ''AAPL''), (2, ''AAPL''), (3, ''AAPL''), (4, ''AAPL''), (5, ''AAPL'')],
      columns =
        [(''Close'', [Some 1, Some 2, Some 3, Some 4, Some 5]),
         (''RollAvg2Days'', [Some 3, Some 2, Some 1, None, Some 4]),
         (''EMA2'', [Some 2, Some 2, Some (3 / 2), Some 4, None])]\<rparr>"

text \<open>
  Two tickers whose rows alternate, so that the grouped order differs from the row
  order; the rows of MSFT are not in date order, and AAPL has a gap in the middle that
  no cleaning has filled.
\<close>

definition mixed_panel :: panel where
  "mixed_panel =
     \<lparr>index = [(2, ''MSFT''), (1, ''AAPL''), (1, ''MSFT''), (2, ''AAPL''), (3, ''AAPL'')],
      columns = [(''Close'', [Some 1, Some 1, Some 3, None, Some 3])]\<rparr>"

text \<open>\<^const>\<open>gap_panel\<close> after cleaning: the leading gap of Close is still there.\<close>

definition gap_panel_cleaned :: panel where
  "gap_panel_cleaned =
     \<lparr>index = [(1, ''AAPL''), (2, ''AAPL''), (3, ''AAPL''), (1, ''MSFT'')],
      columns =
        [(''Close'', [None, Some 10, Some 10, Some 7]),
         (''Volume'', [Some 100, Some 100, None, None]),
         (''Dividends'', [None, Some 1, None, None])]\<rparr>"

text \<open>One ticker whose two rows are in descending date order, without gaps.\<close>

definition unsorted_panel :: panel where
  "unsorted_panel =
     \<lparr>index = [(2, ''AAPL''), (1, ''AAPL'')],
      columns = [(''Close'', [Some 1, Some 3])]\<rparr>"

text \<open>A partition whose only raw file lists the same date twice.\<close>

definition duplicate_store :: store where
  "duplicate_store =
     Map.empty(''data/extract/2023_01_01/AAPL.csv'' \<mapsto>
       \<lparr>Date = Some [1, 1], Ticker = None, cols = [(''Close'', [Some 1, Some 2])]\<rparr>)"

text \<open>A partition of two tickers with two days each.\<close>

definition two_day_store :: store where
  "two_day_store =
     Map.empty
       (''data/extract/2023_01_01/AAPL.csv'' \<mapsto>
          \<lparr>Date = Some [1, 2], Ticker = None, cols = [(''Close'', [Some 1, Some 2])]\<rparr>,
        ''data/extract/2023_01_01/MSFT.csv'' \<mapsto>
          \<lparr>Date = Some [1, 2], Ticker = None, cols = [(''Close'', [Some 5, Some 4])]\<rparr>)"

definition two_day_panel :: panel where
  "two_day_panel =
     \<lparr>index = [(1, ''AAPL''), (2, ''AAPL''), (1, ''MSFT''), (2, ''MSFT'')],
      columns = [(''Close'', [Some 1, Some 2, Some 5, Some 4])]\<rparr>"

definition two_day_config :: config where
  "two_day_config = \<lparr>roll_avg_days = 2, ema_span = 2\<rparr>"

text \<open>
  A partition in which the raw file of every ticker has the header and no rows, and
  the frame the transform returns for it.
\<close>

definition empty_raw :: table where
  "empty_raw =
     \<lparr>Date = Some [], Ticker = None,
      cols = [(''Open'', []), (''High'', []), (''Low'', []), (''Close'', []),
              (''Adj Close'', []), (''Volume'', [])]\<rparr>"

definition empty_store :: store where
  "empty_store =
     Map.empty
       (''data/extract/2023_01_01/AAPL.csv'' \<mapsto> empty_raw,
        ''data/extract/2023_01_01/MSFT.csv'' \<mapsto> empty_raw)"

definition empty_result :: panel where
  "empty_result =
     \<lparr>index = [],
      columns = [(''Open'', []), (''High'', []), (''Low'', []), (''Close'', []),
                 (''Adj Close'', []), (''Volume'', []), (''DailyReturn'', []),
                 (''RollAvg2Days'', []), (''EMA2'', []), (''Crossover'', [])]\<rparr>"

text \<open>
  The partition of the unit tests, with three days for each of the two tickers, and
  the frame the transform returns for it.
\<close>

definition scenario_raw :: table where
  "scenario_raw =
     \<lparr>Date = Some [1, 2, 3], Ticker = None,
      cols = [(''Open'', [Some 1, Some 2, Some 3]), (''High'', [Some 2, Some 3, Some 4]),
              (''Low'', [Some 0, Some 1, Some 2]), (''Close'', [Some 1, Some 2, Some 3]),
              (''Adj Close'', [Some 1, Some 2, Some 3]),
              (''Volume'', [Some 100, Some 200, Some 300])]\<rparr>"

definition scenario_store :: store where
  "scenario_store =
     Map.empty
       (''data/extract/2023_01_01/AAPL.csv'' \<mapsto> scenario_raw,
        ''data/extract/2023_01_01/MSFT.csv'' \<mapsto> scenario_raw)"

definition scenario_result :: panel where
  "scenario_result =
     \<lparr>index = [(1, ''AAPL''), (2, ''AAPL''), (3, ''AAPL''),
               (1, ''MSFT''), (2, ''MSFT''), (3, ''MSFT'')],
      columns =
        [(''Open'', [Some 1, Some 2, Some 3, Some 1, Some 2, Some 3]),
         (''High'', [Some 2, Some 3, Some 4, Some 2, Some 3, Some 4]),
         (''Low'', [Some 0, Some 1, Some 2, Some 0, Some 1, Some 2]),
         (''Close'', [Some 1, Some 2, Some 3, Some 1, Some 2, Some 3]),
         (''Adj Close'', [Some 1, Some 2, Some 3, Some 1, Some 2, Some 3]),
         (''Volume'', [Some 100, Some 200, Some 300, Some 100, Some 200, Some 300]),
         (''DailyReturn'', [None, Some 1, Some (1 / 2), None, Some 1, Some (1 / 2)]),
         (''RollAvg2Days'',
            [Some 1, Some (3 / 2), Some (5 / 2), Some 1, Some (3 / 2), Some (5 / 2)]),
         (''EMA2'', [Some 1, Some (5 / 3), Some (23 / 9), Some 1, Some (5 / 3), Some (23 / 9)]),
         (''Crossover'', [Some 0, Some (- 1), Some (- 1), Some 0, Some (- 1), Some (- 1)])]\<rparr>"

text \<open>
  A frame with gaps in each of the five price columns, in Volume and in a column that
  cleaning does not touch.
\<close>

definition price_gap_panel :: panel where
  "price_gap_panel =
     \<lparr>index = [(1, ''AAPL''), (2, ''AAPL''), (3, ''AAPL''), (1, ''MSFT'')],
      columns =
        [(''Open'', [None, Some 1, None, Some 2]),
         (''High'', [Some 3, None, None, Some 4]),
         (''Low'', [None, None, Some 5, None]),
         (''Close'', [None, Some 10, None, Some 7]),
         (''Adj Close'', [Some 9, None, Some 8, None]),
         (''Volume'', [None, Some 100, None, None]),
         (''Dividends'', [None, Some 1, None, None])]\<rparr>"

text \<open>
  A frame whose adjusted close is stored twice, once under the name AdjClose and once
  under the name Adj Close, with the same gap.
\<close>

definition adjclose_panel :: panel where
  "adjclose_panel =
     \<lparr>index = [(1, ''AAPL''), (2, ''AAPL'')],
      columns =
        [(''AdjClose'', [Some 1, None]),
         (''Adj Close'', [Some 1, None])]\<rparr>"

section \<open>Properties of cleaning\<close>

lemma length_ffill_from [simp]: "length (ffill_from prev xs) = length xs"
  by (induction xs arbitrary: prev) (auto split: option.splits)

lemma length_ffill [simp]: "length (ffill xs) = length xs"
  by (simp add: ffill_def)

lemma length_bfill [simp]: "length (bfill xs) = length xs"
  by (induction xs) (auto simp: Let_def)

lemma length_fill [simp]: "length (fill col xs) = length xs"
  by (simp add: fill_def)

lemma first_of_append:
  "(case as @ bs of [] \<Rightarrow> d | y # _ \<Rightarrow> y) =
   (case as of [] \<Rightarrow> (case bs of [] \<Rightarrow> d | y # _ \<Rightarrow> y) | y # _ \<Rightarrow> y)"
  by (cases as) auto

lemma ffill_from_nth:
  "i < length xs \<Longrightarrow>
   ffill_from prev xs ! i =
     (case filter (\<lambda>x. x \<noteq> None) (rev (take (Suc i) xs)) of
        [] \<Rightarrow> prev
      | y # _ \<Rightarrow> y)"
proof (induction xs arbitrary: prev i)
  case Nil
  then show ?case by simp
next
  case (Cons x xs)
  show ?case
  proof (cases i)
    case 0
    then show ?thesis by (cases x) auto
  next
    case (Suc j)
    with Cons.prems have j: "j < length xs" by simp
    show ?thesis
    proof (cases x)
      case None
      with Suc Cons.IH [OF j, of prev] show ?thesis
        by (simp add: first_of_append split: list.splits)
    next
      case (Some v)
      with Suc Cons.IH [OF j, of "Some v"] show ?thesis
        by (simp add: first_of_append split: list.splits)
    qed
  qed
qed

lemma ffill_nth: "i < length xs \<Longrightarrow> ffill xs ! i = last_known xs i"
  by (simp add: ffill_def last_known_def ffill_from_nth)

lemma bfill_hd:
  "(case bfill xs of [] \<Rightarrow> None | y # _ \<Rightarrow> y) =
   (case filter (\<lambda>x. x \<noteq> None) xs of [] \<Rightarrow> None | y # _ \<Rightarrow> y)"
  by (induction xs) (auto simp: Let_def split: option.splits)

lemma bfill_nth: "i < length xs \<Longrightarrow> bfill xs ! i = next_known xs i"
proof (induction xs arbitrary: i)
  case Nil
  then show ?case by simp
next
  case (Cons x xs)
  show ?case
  proof (cases i)
    case 0
    then show ?thesis
      using bfill_hd [of xs]
      by (cases x) (auto simp: next_known_def Let_def)
  next
    case (Suc j)
    with Cons show ?thesis by (simp add: next_known_def Let_def)
  qed
qed

lemma ffill_from_idem: "ffill_from prev (ffill_from prev xs) = ffill_from prev xs"
proof (induction xs arbitrary: prev)
  case Nil
  then show ?case by simp
next
  case (Cons x xs)
  then show ?case by (cases x; cases prev) auto
qed

lemma ffill_idem: "ffill (ffill xs) = ffill xs"
  by (simp add: ffill_def ffill_from_idem)

lemma bfill_idem: "bfill (bfill xs) = bfill xs"
proof (induction xs)
  case Nil
  then show ?case by simp
next
  case (Cons x xs)
  then show ?case
    by (cases x; cases "bfill xs") (auto simp: Let_def split: option.splits)
qed

lemma fill_idem: "fill col (fill col xs) = fill col xs"
  by (simp add: fill_def ffill_idem bfill_idem)

lemma setcol_present:
  "distinct (map fst cs) \<Longrightarrow> map_of cs col = Some xs \<Longrightarrow>
   setcol col v cs = map (\<lambda>(n, ys). (n, if n = col then v else ys)) cs"
proof (induction cs)
  case Nil
  then show ?case by simp
next
  case (Cons p ps)
  obtain n ys where p: "p = (n, ys)" by (cases p)
  show ?case
  proof (cases "n = col")
    case True
    with Cons.prems p have "col \<notin> fst ` set ps" by auto
    then have "map (\<lambda>(n, ys). (n, if n = col then v else ys)) ps = ps"
      by (intro map_idI) (auto simp: image_iff)
    with True p show ?thesis by simp
  next
    case False
    with Cons p show ?thesis by simp
  qed
qed

lemma map_of_names: "col \<in> set (map fst cs) \<Longrightarrow> \<exists>xs. map_of cs col = Some xs"
  by (induction cs) auto

lemma clean_step_closed:
  assumes "distinct (map fst (columns df))" and "col \<in> set (map fst (columns df))"
  shows "clean_step col df =
    Inr (df\<lparr>columns := map (\<lambda>(n, ys). (n, if n = col then fill n ys else ys)) (columns df)\<rparr>)"
proof -
  from map_of_names [OF assms(2)] obtain xs where xs: "map_of (columns df) col = Some xs" ..
  have same: "\<And>n ys. (n, ys) \<in> set (columns df) \<Longrightarrow> n = col \<Longrightarrow> ys = xs"
  proof -
    fix n ys assume "(n, ys) \<in> set (columns df)" and "n = col"
    then have "map_of (columns df) col = Some ys"
      using assms(1) by (simp add: map_of_is_SomeI)
    with xs show "ys = xs" by simp
  qed
  have upd: "map (\<lambda>(n, ys). (n, if n = col then fill col xs else ys)) (columns df) =
      map (\<lambda>(n, ys). (n, if n = col then fill n ys else ys)) (columns df)"
  proof (rule map_cong [OF refl])
    fix p assume p: "p \<in> set (columns df)"
    obtain n ys where nys: "p = (n, ys)" by (cases p)
    show "(case p of (n, ys) \<Rightarrow> (n, if n = col then fill col xs else ys)) =
        (case p of (n, ys) \<Rightarrow> (n, if n = col then fill n ys else ys))"
      using same [of n ys] p nys by (cases "n = col") simp_all
  qed
  have keep: "setitem df col xs = df"
  proof -
    have "map (\<lambda>(n, ys). (n, if n = col then xs else ys)) (columns df) = columns df"
      proof (rule map_idI)
        fix p assume p: "p \<in> set (columns df)"
        obtain n ys where nys: "p = (n, ys)" by (cases p)
        show "(case p of (n, ys) \<Rightarrow> (n, if n = col then xs else ys)) = p"
          using same [of n ys] p nys by (cases "n = col") simp_all
      qed
    then show ?thesis
      using setcol_present [OF assms(1) xs, of xs] by (simp add: setitem_def)
  qed
  have run: "clean_step col df = Inr (setitem df col (fill col xs))"
  proof (cases "col \<in> set price_columns")
    case True
    then show ?thesis by (simp add: clean_step_def getitem_def xs fill_def)
  next
    case notprice: False
    show ?thesis
    proof (cases "col = ''Volume''")
      case True
      with notprice xs show ?thesis by (simp add: clean_step_def getitem_def fill_def)
    next
      case False
      with notprice show ?thesis by (simp add: clean_step_def fill_def keep)
    qed
  qed
  have "setitem df col (fill col xs) =
      df\<lparr>columns := map (\<lambda>(n, ys). (n, if n = col then fill col xs else ys)) (columns df)\<rparr>"
    by (simp only: setitem_def setcol_present [OF assms(1) xs])
  with run upd show ?thesis by (simp only:)
qed

lemma clean_loop_closed:
  "distinct names \<Longrightarrow> set names \<subseteq> set (map fst (columns df)) \<Longrightarrow>
   distinct (map fst (columns df)) \<Longrightarrow>
   clean_loop names df =
     Inr (df\<lparr>columns :=
       map (\<lambda>(n, ys). (n, if n \<in> set names then fill n ys else ys)) (columns df)\<rparr>)"
proof (induction names arbitrary: df)
  case Nil
  have "map (\<lambda>(n, ys). (n, ys)) (columns df) = columns df"
    by (intro map_idI) auto
  then show ?case by simp
next
  case (Cons c cs)
  let ?df = "df\<lparr>columns := map (\<lambda>(n, ys). (n, if n = c then fill n ys else ys)) (columns df)\<rparr>"
  have step: "clean_step c df = Inr ?df"
    using Cons.prems by (intro clean_step_closed) auto
  have names: "map fst (columns ?df) = map fst (columns df)"
    by (auto simp: comp_def case_prod_unfold)
  have "clean_loop cs ?df =
      Inr (?df\<lparr>columns :=
        map (\<lambda>(n, ys). (n, if n \<in> set cs then fill n ys else ys)) (columns ?df)\<rparr>)"
    using Cons.prems unfolding names [symmetric]
    by (intro Cons.IH) (auto simp: names)
  moreover have "map (\<lambda>(n, ys). (n, if n \<in> set cs then fill n ys else ys)) (columns ?df) =
      map (\<lambda>(n, ys). (n, if n \<in> set (c # cs) then fill n ys else ys)) (columns df)"
    using Cons.prems(1) by (auto simp: comp_def case_prod_unfold)
  ultimately show ?case using step by simp
qed

lemma clean_closed:
  assumes "distinct (map fst (columns df))"
  shows "clean df = Inr (df\<lparr>columns := map (\<lambda>(n, ys). (n, fill n ys)) (columns df)\<rparr>)"
proof -
  have "map (\<lambda>(n, ys). (n, if n \<in> set (map fst (columns df)) then fill n ys else ys)) (columns df) =
        map (\<lambda>(n, ys). (n, fill n ys)) (columns df)"
    by (rule map_cong [OF refl]) force
  then show ?thesis
    using clean_loop_closed [OF assms subset_refl assms] by (simp add: clean_def)
qed

lemma map_of_map_named:
  "map_of (map (\<lambda>(n, ys). (n, f n ys)) cs) col = map_option (f col) (map_of cs col)"
  by (induction cs) auto

lemma fill_nth:
  "i < length xs \<Longrightarrow>
   fill col xs ! i =
     (if col = ''Open'' \<or> col = ''High'' \<or> col = ''Low'' \<or> col = ''Close'' \<or>
         col = ''Adj Close''
      then last_known xs i
      else if col = ''Volume'' then next_known xs i
      else xs ! i)"
  by (auto simp: fill_def price_columns_def ffill_nth bfill_nth)

text \<open>
  Claim C5, as the code has it. \<^verbatim>\<open>_clean\<close> never fails. It keeps the rows and the
  column names. In each of the five columns named Open, High, Low, Close and
  Adj Close (with a space, as the raw files have it) the cell of row \<open>i\<close> becomes the
  last known value at or above row \<open>i\<close> in the row order of the whole table; in the
  column named Volume it becomes the next known value at or below row \<open>i\<close>; a cell
  with no such value stays missing. Every other column, also one named AdjClose, is
  left as it is.
\<close>

theorem clean_fills_prices_forward_volume_backward:
  assumes "distinct (map fst (columns df))"
  shows "\<exists>df'. clean df = Inr df' \<and>
           index df' = index df \<and>
           map fst (columns df') = map fst (columns df) \<and>
           (\<forall>col xs. map_of (columns df) col = Some xs \<longrightarrow>
              (\<exists>ys. map_of (columns df') col = Some ys \<and> length ys = length xs \<and>
                 (\<forall>i < length xs.
                    ys ! i =
                      (if col = ''Open'' \<or> col = ''High'' \<or> col = ''Low'' \<or>
                          col = ''Close'' \<or> col = ''Adj Close''
                       then last_known xs i
                       else if col = ''Volume'' then next_known xs i
                       else xs ! i))))"
proof -
  let ?df = "df\<lparr>columns := map (\<lambda>(n, ys). (n, fill n ys)) (columns df)\<rparr>"
  have run: "clean df = Inr ?df"
    by (rule clean_closed [OF assms])
  have idx: "index ?df = index df"
    by simp
  have names: "map fst (columns ?df) = map fst (columns df)"
    by (simp add: comp_def case_prod_unfold)
  have cells: "\<forall>col xs. map_of (columns df) col = Some xs \<longrightarrow>
      (\<exists>ys. map_of (columns ?df) col = Some ys \<and> length ys = length xs \<and>
                 (\<forall>i < length xs.
                    ys ! i =
                      (if col = ''Open'' \<or> col = ''High'' \<or> col = ''Low'' \<or>
                          col = ''Close'' \<or> col = ''Adj Close''
                       then last_known xs i
                       else if col = ''Volume'' then next_known xs i
                       else xs ! i)))"
  proof (intro allI impI)
    fix col xs assume "map_of (columns df) col = Some xs"
    then have c: "map_of (columns ?df) col = Some (fill col xs)"
      by (simp add: map_of_map_named)
    have l: "length (fill col xs) = length xs"
      by simp
    have n: "\<forall>i < length xs.
        fill col xs ! i =
          (if col = ''Open'' \<or> col = ''High'' \<or> col = ''Low'' \<or>
              col = ''Close'' \<or> col = ''Adj Close''
           then last_known xs i
           else if col = ''Volume'' then next_known xs i
           else xs ! i)"
      by (intro allI impI) (rule fill_nth)
    show "\<exists>ys. map_of (columns ?df) col = Some ys \<and> length ys = length xs \<and>
                 (\<forall>i < length xs.
                    ys ! i =
                      (if col = ''Open'' \<or> col = ''High'' \<or> col = ''Low'' \<or>
                          col = ''Close'' \<or> col = ''Adj Close''
                       then last_known xs i
                       else if col = ''Volume'' then next_known xs i
                       else xs ! i))"
      by (rule exI [of _ "fill col xs"], intro conjI) (rule c l n)+
  qed
  show ?thesis
    by (rule exI [of _ ?df], intro conjI) (rule run idx names cells)+
qed

lemma price_gap_panel_cleaned:
  "clean price_gap_panel =
     Inr \<lparr>index = [(1, ''AAPL''), (2, ''AAPL''), (3, ''AAPL''), (1, ''MSFT'')],
          columns =
            [(''Open'', [None, Some 1, Some 1, Some 2]),
             (''High'', [Some 3, Some 3, Some 3, Some 4]),
             (''Low'', [None, None, Some 5, Some 5]),
             (''Close'', [None, Some 10, Some 10, Some 7]),
             (''Adj Close'', [Some 9, Some 9, Some 8, Some 8]),
             (''Volume'', [Some 100, Some 100, None, None]),
             (''Dividends'', [None, Some 1, None, None])]\<rparr>"
  by (simp add: price_gap_panel_def clean_def clean_step_def getitem_def setitem_def
      price_columns_def ffill_def)

theorem clean_fills_prices_forward_volume_backward_witness:
  "distinct (map fst (columns price_gap_panel)) \<and>
   clean price_gap_panel =
     Inr \<lparr>index = [(1, ''AAPL''), (2, ''AAPL''), (3, ''AAPL''), (1, ''MSFT'')],
          columns =
            [(''Open'', [None, Some 1, Some 1, Some 2]),
             (''High'', [Some 3, Some 3, Some 3, Some 4]),
             (''Low'', [None, None, Some 5, Some 5]),
             (''Close'', [None, Some 10, Some 10, Some 7]),
             (''Adj Close'', [Some 9, Some 9, Some 8, Some 8]),
             (''Volume'', [Some 100, Some 100, None, None]),
             (''Dividends'', [None, Some 1, None, None])]\<rparr> \<and>
   (\<exists>df'. clean price_gap_panel = Inr df' \<and>
      (\<exists>ys. map_of (columns df') ''Open'' = Some ys \<and>
         ys ! 0 = last_known [None, Some 1, None, Some 2] 0 \<and>
         ys ! 2 = last_known [None, Some 1, None, Some 2] 2) \<and>
      (\<exists>ys. map_of (columns df') ''High'' = Some ys \<and>
         ys ! 2 = last_known [Some 3, None, None, Some 4] 2) \<and>
      (\<exists>ys. map_of (columns df') ''Low'' = Some ys \<and>
         ys ! 3 = last_known [None, None, Some 5, None] 3) \<and>
      (\<exists>ys. map_of (columns df') ''Close'' = Some ys \<and>
         ys ! 2 = last_known [None, Some 10, None, Some 7] 2) \<and>
      (\<exists>ys. map_of (columns df') ''Adj Close'' = Some ys \<and>
         ys ! 1 = last_known [Some 9, None, Some 8, None] 1) \<and>
      (\<exists>ys. map_of (columns df') ''Volume'' = Some ys \<and>
         ys ! 0 = next_known [None, Some 100, None, None] 0 \<and>
         ys ! 2 = next_known [None, Some 100, None, None] 2) \<and>
      (\<exists>ys. map_of (columns df') ''Dividends'' = Some ys \<and>
         ys ! 0 = [None, Some 1, None, None] ! 0)) \<and>
   last_known [None, Some 1, None, Some 2] 2 = Some 1 \<and>
   last_known [Some 3, None, None, Some 4] 2 = Some 3 \<and>
   last_known [None, None, Some 5, None] 3 = Some 5 \<and>
   last_known [None, Some 10, None, Some 7] 2 = Some 10 \<and>
   last_known [Some 9, None, Some 8, None] 1 = Some 9 \<and>
   next_known [None, Some 100, None, None] 0 = Some 100 \<and>
   next_known [None, Some 100, None, None] 2 = None"
proof -
  have d: "distinct (map fst (columns price_gap_panel))"
    by (simp add: price_gap_panel_def)
  from clean_fills_prices_forward_volume_backward [OF d]
  obtain df' where run: "clean price_gap_panel = Inr df'"
    and cells: "\<forall>col xs. map_of (columns price_gap_panel) col = Some xs \<longrightarrow>
              (\<exists>ys. map_of (columns df') col = Some ys \<and> length ys = length xs \<and>
                 (\<forall>i < length xs.
                    ys ! i =
                      (if col = ''Open'' \<or> col = ''High'' \<or> col = ''Low'' \<or>
                          col = ''Close'' \<or> col = ''Adj Close''
                       then last_known xs i
                       else if col = ''Volume'' then next_known xs i
                       else xs ! i)))"
    by (elim exE conjE) (rule that; assumption)
  have "map_of (columns price_gap_panel) ''Open'' = Some [None, Some 1, None, Some 2]"
    by (simp add: price_gap_panel_def)
  from cells [rule_format, OF this]
  have c1: "\<exists>ys. map_of (columns df') ''Open'' = Some ys \<and>
         ys ! 0 = last_known [None, Some 1, None, Some 2] 0 \<and>
         ys ! 2 = last_known [None, Some 1, None, Some 2] 2"
    by auto
  have "map_of (columns price_gap_panel) ''High'' = Some [Some 3, None, None, Some 4]"
    by (simp add: price_gap_panel_def)
  from cells [rule_format, OF this]
  have c2: "\<exists>ys. map_of (columns df') ''High'' = Some ys \<and>
         ys ! 2 = last_known [Some 3, None, None, Some 4] 2"
    by auto
  have "map_of (columns price_gap_panel) ''Low'' = Some [None, None, Some 5, None]"
    by (simp add: price_gap_panel_def)
  from cells [rule_format, OF this]
  have c3: "\<exists>ys. map_of (columns df') ''Low'' = Some ys \<and>
         ys ! 3 = last_known [None, None, Some 5, None] 3"
    by auto
  have "map_of (columns price_gap_panel) ''Close'' = Some [None, Some 10, None, Some 7]"
    by (simp add: price_gap_panel_def)
  from cells [rule_format, OF this]
  have c4: "\<exists>ys. map_of (columns df') ''Close'' = Some ys \<and>
         ys ! 2 = last_known [None, Some 10, None, Some 7] 2"
    by auto
  have "map_of (columns price_gap_panel) ''Adj Close'' = Some [Some 9, None, Some 8, None]"
    by (simp add: price_gap_panel_def)
  from cells [rule_format, OF this]
  have c5: "\<exists>ys. map_of (columns df') ''Adj Close'' = Some ys \<and>
         ys ! 1 = last_known [Some 9, None, Some 8, None] 1"
    by auto
  have "map_of (columns price_gap_panel) ''Volume'' = Some [None, Some 100, None, None]"
    by (simp add: price_gap_panel_def)
  from cells [rule_format, OF this]
  have c6: "\<exists>ys. map_of (columns df') ''Volume'' = Some ys \<and>
         ys ! 0 = next_known [None, Some 100, None, None] 0 \<and>
         ys ! 2 = next_known [None, Some 100, None, None] 2"
    by auto
  have "map_of (columns price_gap_panel) ''Dividends'' = Some [None, Some 1, None, None]"
    by (simp add: price_gap_panel_def)
  from cells [rule_format, OF this]
  have c7: "\<exists>ys. map_of (columns df') ''Dividends'' = Some ys \<and>
         ys ! 0 = [None, Some 1, None, None] ! 0"
    by auto
  have all: "\<exists>df'. clean price_gap_panel = Inr df' \<and>
      (\<exists>ys. map_of (columns df') ''Open'' = Some ys \<and>
         ys ! 0 = last_known [None, Some 1, None, Some 2] 0 \<and>
         ys ! 2 = last_known [None, Some 1, None, Some 2] 2) \<and>
      (\<exists>ys. map_of (columns df') ''High'' = Some ys \<and>
         ys ! 2 = last_known [Some 3, None, None, Some 4] 2) \<and>
      (\<exists>ys. map_of (columns df') ''Low'' = Some ys \<and>
         ys ! 3 = last_known [None, None, Some 5, None] 3) \<and>
      (\<exists>ys. map_of (columns df') ''Close'' = Some ys \<and>
         ys ! 2 = last_known [None, Some 10, None, Some 7] 2) \<and>
      (\<exists>ys. map_of (columns df') ''Adj Close'' = Some ys \<and>
         ys ! 1 = last_known [Some 9, None, Some 8, None] 1) \<and>
      (\<exists>ys. map_of (columns df') ''Volume'' = Some ys \<and>
         ys ! 0 = next_known [None, Some 100, None, None] 0 \<and>
         ys ! 2 = next_known [None, Some 100, None, None] 2) \<and>
      (\<exists>ys. map_of (columns df') ''Dividends'' = Some ys \<and>
         ys ! 0 = [None, Some 1, None, None] ! 0)"
    by (rule exI [of _ df'], intro conjI) (rule run c1 c2 c3 c4 c5 c6 c7)+
  have vals:
    "last_known [None, Some 1, None, Some (2::real)] 2 = Some 1"
    "last_known [Some 3, None, None, Some (4::real)] 2 = Some 3"
    "last_known [None, None, Some (5::real), None] 3 = Some 5"
    "last_known [None, Some 10, None, Some (7::real)] 2 = Some 10"
    "last_known [Some 9, None, Some (8::real), None] 1 = Some 9"
    "next_known [None, Some (100::real), None, None] 0 = Some 100"
    "next_known [None, Some (100::real), None, None] 2 = None"
    by (simp_all add: last_known_def next_known_def)
  from d price_gap_panel_cleaned all vals show ?thesis
    by (intro conjI)
qed

text \<open>
  Claim C5 as stated fails on a column named AdjClose: \<^verbatim>\<open>_clean\<close> looks for the name
  Adj Close. In \<^const>\<open>adjclose_panel\<close> the gap under Adj Close is filled with the last
  known value 1 and the same gap under AdjClose is left missing.
\<close>

theorem clean_adjclose_counterexample:
  "clean adjclose_panel =
     Inr \<lparr>index = [(1, ''AAPL''), (2, ''AAPL'')],
          columns =
            [(''AdjClose'', [Some 1, None]),
             (''Adj Close'', [Some 1, Some 1])]\<rparr> \<and>
   last_known [Some 1, None] 1 = Some 1"
  by (simp add: adjclose_panel_def clean_def clean_step_def getitem_def setitem_def
      price_columns_def ffill_def last_known_def)

text \<open>
  Claim C8. Cleaning is idempotent: \<^verbatim>\<open>_clean\<close> succeeds, and running it again on its
  result succeeds and gives the same frame.
\<close>

theorem clean_idempotent:
  assumes "distinct (map fst (columns df))"
  shows "\<exists>df'. clean df = Inr df' \<and> clean df' = Inr df'"
proof -
  let ?df = "df\<lparr>columns := map (\<lambda>(n, ys). (n, fill n ys)) (columns df)\<rparr>"
  have run: "clean df = Inr ?df"
    by (rule clean_closed [OF assms])
  have names: "map fst (columns ?df) = map fst (columns df)"
    by (simp add: comp_def case_prod_unfold)
  have "clean ?df = Inr (?df\<lparr>columns := map (\<lambda>(n, ys). (n, fill n ys)) (columns ?df)\<rparr>)"
    by (rule clean_closed) (simp only: names assms)
  moreover have "map (\<lambda>(n, ys). (n, fill n ys)) (columns ?df) = columns ?df"
    by (simp add: comp_def case_prod_unfold fill_idem)
  ultimately have "clean ?df = Inr ?df" by simp
  with run show ?thesis by blast
qed

theorem clean_idempotent_witness:
  "distinct (map fst (columns gap_panel)) \<and>
   (\<exists>df'. clean gap_panel = Inr df' \<and> clean df' = Inr df' \<and>
      map_of (columns df') ''Close'' = Some [None, Some 10, Some 10, Some 7])"
proof -
  have d: "distinct (map fst (columns gap_panel))"
    by (simp add: gap_panel_def)
  have run: "clean gap_panel =
     Inr \<lparr>index = [(1, ''AAPL''), (2, ''AAPL''), (3, ''AAPL''), (1, ''MSFT'')],
          columns =
            [(''Close'', [None, Some 10, Some 10, Some 7]),
             (''Volume'', [Some 100, Some 100, None, None]),
             (''Dividends'', [None, Some 1, None, None])]\<rparr>"
    by (simp add: gap_panel_def clean_def clean_step_def getitem_def setitem_def
        price_columns_def ffill_def)
  from clean_idempotent [OF d] obtain df'
    where "clean gap_panel = Inr df'" and "clean df' = Inr df'" by blast
  with d run show ?thesis by auto
qed

section \<open>Columns of a frame\<close>

lemma map_of_setcol:
  "map_of (setcol col v cs) c = (if c = col then Some v else map_of cs c)"
  by (induction cs) auto

lemma names_setcol: "set (map fst (setcol col v cs)) = insert col (set (map fst cs))"
  by (induction cs) auto

lemma distinct_setcol: "distinct (map fst cs) \<Longrightarrow> distinct (map fst (setcol col v cs))"
proof (induction cs)
  case Nil
  then show ?case by simp
next
  case (Cons p ps)
  then show ?case
    using names_setcol [of col v ps] by (auto simp del: set_map)
qed

lemma set_setcol: "set (setcol col v cs) \<subseteq> insert (col, v) (set cs)"
  by (induction cs) auto

lemma getitem_setitem:
  "getitem (setitem df col v) c = (if c = col then Inr v else getitem df c)"
  by (simp add: getitem_def setitem_def map_of_setcol)

lemma index_setitem [simp]: "index (setitem df col v) = index df"
  by (simp add: setitem_def)

lemma wf_setitem:
  assumes "wf_panel df" and "length v = length (index df)"
  shows "wf_panel (setitem df col v)"
proof -
  have "distinct (map fst (setcol col v (columns df)))"
    using assms(1) by (simp add: wf_panel_def distinct_setcol)
  moreover have "length (snd c) = length (index df)"
    if "c \<in> set (setcol col v (columns df))" for c
    using that set_setcol [of col v "columns df"] assms
    by (auto simp: wf_panel_def list_all_iff)
  ultimately show ?thesis
    by (simp add: wf_panel_def setitem_def list_all_iff)
qed

lemma wf_getitem_length:
  assumes "wf_panel df" and "getitem df col = Inr xs"
  shows "length xs = length (index df)"
proof -
  from assms(2) have "map_of (columns df) col = Some xs"
    by (simp add: getitem_def split: option.splits)
  then have "(col, xs) \<in> set (columns df)"
    by (rule map_of_SomeD)
  with assms(1) show ?thesis
    by (auto simp: wf_panel_def list_all_iff)
qed

section \<open>Crossover\<close>

lemma crossover_cell_sgn: "crossover_cell (Some a) (Some b) = Some (sgn (a - b))"
  by (simp add: crossover_cell_def gt_cell_def lt_cell_def astype_int_def sgn_real_def)

lemma crossover_cell_missing:
  "r = None \<or> e = None \<Longrightarrow> crossover_cell r e = Some 0"
  by (auto simp: crossover_cell_def gt_cell_def lt_cell_def astype_int_def split: option.splits)

lemma crossover_cell_range:
  "crossover_cell r e \<in> {Some (- 1), Some 0, Some 1}"
  by (auto simp: crossover_cell_def gt_cell_def lt_cell_def astype_int_def split: option.splits)

lemma crossover_not_feature_name:
  "''Crossover'' \<noteq> roll_avg_days_column w" "''Crossover'' \<noteq> ema_column s"
  by (simp_all add: roll_avg_days_column_def ema_column_def)

lemma add_time_series_analysis_run:
  assumes "getitem df (roll_avg_days_column w) = Inr roll"
    and "getitem df (ema_column s) = Inr ema"
  shows "add_time_series_analysis w s df =
      Inr (setitem df ''Crossover'' (map2 crossover_cell roll ema))"
  using assms by (simp add: add_time_series_analysis_def)

text \<open>
  Claim C1. On a frame that has the rolling-average and the EMA column, the crossover
  step adds a Crossover column and leaves the two columns as they are; on every row
  where both are defined, Crossover is the sign of the rolling average minus the EMA
  (1 above, -1 below, 0 exactly when they are equal), one of -1, 0 and 1.
\<close>

theorem crossover_sign_law:
  assumes "wf_panel df"
    and "getitem df (roll_avg_days_column w) = Inr roll"
    and "getitem df (ema_column s) = Inr ema"
  shows "\<exists>df' x. add_time_series_analysis w s df = Inr df' \<and>
           index df' = index df \<and>
           getitem df' (roll_avg_days_column w) = Inr roll \<and>
           getitem df' (ema_column s) = Inr ema \<and>
           getitem df' ''Crossover'' = Inr x \<and>
           length x = length (index df) \<and>
           (\<forall>i < length (index df). \<forall>a b.
              roll ! i = Some a \<and> ema ! i = Some b \<longrightarrow>
                x ! i = Some (sgn (a - b)) \<and>
                x ! i \<in> {Some (- 1), Some 0, Some 1} \<and>
                (x ! i = Some 1 \<longleftrightarrow> a > b) \<and>
                (x ! i = Some (- 1) \<longleftrightarrow> a < b) \<and>
                (x ! i = Some 0 \<longleftrightarrow> a = b))"
proof -
  let ?x = "map2 crossover_cell roll ema"
  let ?df = "setitem df ''Crossover'' ?x"
  have lr: "length roll = length (index df)" and le: "length ema = length (index df)"
    using assms by (auto dest: wf_getitem_length)
  have run: "add_time_series_analysis w s df = Inr ?df"
    using assms(2,3) by (rule add_time_series_analysis_run)
  have cols: "getitem ?df (roll_avg_days_column w) = Inr roll"
    "getitem ?df (ema_column s) = Inr ema" "getitem ?df ''Crossover'' = Inr ?x"
    using assms(2,3) crossover_not_feature_name(1) [of w] crossover_not_feature_name(2) [of s]
    by (simp_all add: getitem_setitem)
  have rows: "?x ! i = Some (sgn (a - b)) \<and>
                ?x ! i \<in> {Some (- 1), Some 0, Some 1} \<and>
                (?x ! i = Some 1 \<longleftrightarrow> a > b) \<and>
                (?x ! i = Some (- 1) \<longleftrightarrow> a < b) \<and>
                (?x ! i = Some 0 \<longleftrightarrow> a = b)"
    if "i < length (index df)" and "roll ! i = Some a" and "ema ! i = Some b" for i a b
  proof -
    have "?x ! i = crossover_cell (Some a) (Some b)"
      using that lr le by simp
    then have "?x ! i = Some (sgn (a - b))"
      by (simp only: crossover_cell_sgn)
    then show ?thesis
      by (auto simp: sgn_real_def split: if_splits)
  qed
  have len: "length ?x = length (index df)"
    using lr le by simp
  have idx: "index ?df = index df"
    by simp
  have all_rows: "\<forall>i < length (index df). \<forall>a b.
              roll ! i = Some a \<and> ema ! i = Some b \<longrightarrow>
                ?x ! i = Some (sgn (a - b)) \<and>
                ?x ! i \<in> {Some (- 1), Some 0, Some 1} \<and>
                (?x ! i = Some 1 \<longleftrightarrow> a > b) \<and>
                (?x ! i = Some (- 1) \<longleftrightarrow> a < b) \<and>
                (?x ! i = Some 0 \<longleftrightarrow> a = b)"
    using rows by blast
  show ?thesis
    by (rule exI [of _ ?df], rule exI [of _ ?x], intro conjI)
      (rule run idx cols len all_rows)+
qed

theorem crossover_sign_law_witness:
  "wf_panel featured_panel \<and>
   getitem featured_panel (roll_avg_days_column 2) = Inr [Some 3, Some 2, Some 1, None, Some 4] \<and>
   getitem featured_panel (ema_column 2) = Inr [Some 2, Some 2, Some (3 / 2), Some 4, None] \<and>
   add_time_series_analysis 2 2 featured_panel =
     Inr (setitem featured_panel ''Crossover'' [Some 1, Some 0, Some (- 1), Some 0, Some 0]) \<and>
   (\<exists>df' x. add_time_series_analysis 2 2 featured_panel = Inr df' \<and>
      getitem df' ''Crossover'' = Inr x \<and>
      x ! 0 = Some (sgn (3 - 2)) \<and> x ! 1 = Some (sgn (2 - 2)) \<and>
      x ! 2 = Some (sgn (1 - 3 / 2)))"
proof -
  have names: "roll_avg_days_column 2 = ''RollAvg2Days''" "ema_column 2 = ''EMA2''"
    by (simp_all add: roll_avg_days_column_def ema_column_def str_int_def str_nat.simps digit_def)
  have wf: "wf_panel featured_panel"
    by (simp add: wf_panel_def featured_panel_def)
  have r: "getitem featured_panel (roll_avg_days_column 2) =
      Inr [Some 3, Some 2, Some 1, None, Some 4]"
    by (simp add: names getitem_def featured_panel_def)
  have e: "getitem featured_panel (ema_column 2) =
      Inr [Some 2, Some 2, Some (3 / 2), Some 4, None]"
    by (simp add: names getitem_def featured_panel_def)
  have run: "add_time_series_analysis 2 2 featured_panel =
     Inr (setitem featured_panel ''Crossover'' [Some 1, Some 0, Some (- 1), Some 0, Some 0])"
    by (simp add: add_time_series_analysis_run [OF r e] crossover_cell_def gt_cell_def
        lt_cell_def astype_int_def)
  have n: "length (index featured_panel) = 5"
    by (simp add: featured_panel_def)
  from crossover_sign_law [OF wf r e] obtain df' x where
    a: "add_time_series_analysis 2 2 featured_panel = Inr df'"
    and b: "getitem df' ''Crossover'' = Inr x"
    and rows: "\<forall>i < length (index featured_panel). \<forall>a b.
         [Some 3, Some 2, Some 1, None, Some 4] ! i = Some a \<and>
         [Some 2, Some 2, Some (3 / 2), Some 4, None] ! i = Some b \<longrightarrow>
           x ! i = Some (sgn (a - b)) \<and>
           x ! i \<in> {Some (- 1), Some 0, Some 1} \<and>
           (x ! i = Some 1 \<longleftrightarrow> a > b) \<and>
           (x ! i = Some (- 1) \<longleftrightarrow> a < b) \<and>
           (x ! i = Some 0 \<longleftrightarrow> a = b)"
    by (elim exE conjE) (rule that; assumption)
  have "x ! 0 = Some (sgn (3 - 2))"
    using rows [rule_format, of 0 3 2] n by simp
  moreover have "x ! 1 = Some (sgn (2 - 2))"
    using rows [rule_format, of 1 2 2] n by simp
  moreover have "x ! 2 = Some (sgn (1 - 3 / 2))"
    using rows [rule_format, of 2 1 "3 / 2"] n by simp
  ultimately have "\<exists>df' x. add_time_series_analysis 2 2 featured_panel = Inr df' \<and>
      getitem df' ''Crossover'' = Inr x \<and>
      x ! 0 = Some (sgn (3 - 2)) \<and> x ! 1 = Some (sgn (2 - 2)) \<and>
      x ! 2 = Some (sgn (1 - 3 / 2))"
    using a b by (intro exI [of _ df'] exI [of _ x] conjI)
  with wf r e run show ?thesis
    by (intro conjI)
qed

text \<open>
  Claim C10. On a frame that has the rolling-average and the EMA column (the crossover
  step reads both), the step returns a frame and never an error; Crossover has a value
  on every row, and on a row where the rolling average or the EMA is missing both
  comparisons are False and the value is 0.
\<close>

theorem crossover_total_never_null:
  assumes "wf_panel df"
    and "getitem df (roll_avg_days_column w) = Inr roll"
    and "getitem df (ema_column s) = Inr ema"
  shows "\<exists>df' x. add_time_series_analysis w s df = Inr df' \<and>
           index df' = index df \<and>
           getitem df' ''Crossover'' = Inr x \<and>
           length x = length (index df) \<and>
           (\<forall>i < length (index df).
              x ! i \<noteq> None \<and>
              (roll ! i = None \<or> ema ! i = None \<longrightarrow>
                 \<not> gt_cell (roll ! i) (ema ! i) \<and> \<not> lt_cell (roll ! i) (ema ! i) \<and>
                 x ! i = Some 0))"
proof -
  let ?x = "map2 crossover_cell roll ema"
  let ?df = "setitem df ''Crossover'' ?x"
  have lr: "length roll = length (index df)" and le: "length ema = length (index df)"
    using assms by (auto dest: wf_getitem_length)
  have run: "add_time_series_analysis w s df = Inr ?df"
    using assms(2,3) by (rule add_time_series_analysis_run)
  have col: "getitem ?df ''Crossover'' = Inr ?x"
    by (simp add: getitem_setitem)
  have rows: "?x ! i \<noteq> None \<and>
      (roll ! i = None \<or> ema ! i = None \<longrightarrow>
         \<not> gt_cell (roll ! i) (ema ! i) \<and> \<not> lt_cell (roll ! i) (ema ! i) \<and>
         ?x ! i = Some 0)"
    if "i < length (index df)" for i
  proof -
    have "?x ! i = crossover_cell (roll ! i) (ema ! i)"
      using that lr le by simp
    then show ?thesis
      using crossover_cell_missing [of "roll ! i" "ema ! i"]
      by (auto simp: crossover_cell_def gt_cell_def lt_cell_def split: option.splits)
  qed
  have len: "length ?x = length (index df)"
    using lr le by simp
  have idx: "index ?df = index df"
    by simp
  have all_rows: "\<forall>i < length (index df).
              ?x ! i \<noteq> None \<and>
              (roll ! i = None \<or> ema ! i = None \<longrightarrow>
                 \<not> gt_cell (roll ! i) (ema ! i) \<and> \<not> lt_cell (roll ! i) (ema ! i) \<and>
                 ?x ! i = Some 0)"
    using rows by blast
  show ?thesis
    by (rule exI [of _ ?df], rule exI [of _ ?x], intro conjI)
      (rule run idx col len all_rows)+
qed

theorem crossover_total_never_null_witness:
  "wf_panel featured_panel \<and>
   getitem featured_panel (roll_avg_days_column 2) = Inr [Some 3, Some 2, Some 1, None, Some 4] \<and>
   getitem featured_panel (ema_column 2) = Inr [Some 2, Some 2, Some (3 / 2), Some 4, None] \<and>
   add_time_series_analysis 2 2 featured_panel =
     Inr (setitem featured_panel ''Crossover'' [Some 1, Some 0, Some (- 1), Some 0, Some 0]) \<and>
   (\<exists>df' x. add_time_series_analysis 2 2 featured_panel = Inr df' \<and>
      getitem df' ''Crossover'' = Inr x \<and>
      length x = length (index featured_panel) \<and>
      x ! 3 = Some 0 \<and> x ! 4 = Some 0)"
proof -
  have names: "roll_avg_days_column 2 = ''RollAvg2Days''" "ema_column 2 = ''EMA2''"
    by (simp_all add: roll_avg_days_column_def ema_column_def str_int_def str_nat.simps digit_def)
  have wf: "wf_panel featured_panel"
    by (simp add: wf_panel_def featured_panel_def)
  have r: "getitem featured_panel (roll_avg_days_column 2) =
      Inr [Some 3, Some 2, Some 1, None, Some 4]"
    by (simp add: names getitem_def featured_panel_def)
  have e: "getitem featured_panel (ema_column 2) =
      Inr [Some 2, Some 2, Some (3 / 2), Some 4, None]"
    by (simp add: names getitem_def featured_panel_def)
  have run: "add_time_series_analysis 2 2 featured_panel =
     Inr (setitem featured_panel ''Crossover'' [Some 1, Some 0, Some (- 1), Some 0, Some 0])"
    by (simp add: add_time_series_analysis_run [OF r e] crossover_cell_def gt_cell_def
        lt_cell_def astype_int_def)
  have n: "length (index featured_panel) = 5"
    by (simp add: featured_panel_def)
  from crossover_total_never_null [OF wf r e] obtain df' x where
    a: "add_time_series_analysis 2 2 featured_panel = Inr df'"
    and b: "getitem df' ''Crossover'' = Inr x"
    and c: "length x = length (index featured_panel)"
    and rows: "\<forall>i < length (index featured_panel).
        x ! i \<noteq> None \<and>
        ([Some 3, Some 2, Some 1, None, Some (4::real)] ! i = None \<or>
         [Some 2, Some 2, Some (3 / 2), Some (4::real), None] ! i = None \<longrightarrow>
           \<not> gt_cell ([Some 3, Some 2, Some 1, None, Some 4] ! i)
               ([Some 2, Some 2, Some (3 / 2), Some 4, None] ! i) \<and>
           \<not> lt_cell ([Some 3, Some 2, Some 1, None, Some 4] ! i)
               ([Some 2, Some 2, Some (3 / 2), Some 4, None] ! i) \<and>
           x ! i = Some 0)"
    by (elim exE conjE) (rule that; assumption)
  have "x ! 3 = Some 0"
    using rows [rule_format, of 3] n by simp
  moreover have "x ! 4 = Some 0"
    using rows [rule_format, of 4] n by simp
  ultimately have "\<exists>df' x. add_time_series_analysis 2 2 featured_panel = Inr df' \<and>
      getitem df' ''Crossover'' = Inr x \<and>
      length x = length (index featured_panel) \<and>
      x ! 3 = Some 0 \<and> x ! 4 = Some 0"
    using a b c by (intro exI [of _ df'] exI [of _ x] conjI)
  with wf r e run show ?thesis
    by (intro conjI)
qed

section \<open>Groups\<close>

lemma zip_group:
  "length xs = length ks \<Longrightarrow>
   filter (\<lambda>p. snd (fst p) = t) (zip ks xs) = zip (group_keys t ks) (group_values t ks xs)"
proof (induction ks arbitrary: xs)
  case Nil
  then show ?case by (simp add: group_keys_def group_values_def)
next
  case (Cons k ks)
  then obtain y ys where xs: "xs = y # ys" and len: "length ys = length ks"
    by (cases xs) auto
  from Cons.IH [OF len] show ?case
    by (simp add: xs group_keys_def group_values_def)
qed

lemma length_group_values:
  "length xs = length ks \<Longrightarrow> length (group_values t ks xs) = length (group_keys t ks)"
proof (induction ks arbitrary: xs)
  case Nil
  then show ?case by (simp add: group_keys_def group_values_def)
next
  case (Cons k ks)
  then obtain y ys where xs: "xs = y # ys" and len: "length ys = length ks"
    by (cases xs) auto
  from Cons.IH [OF len] show ?case
    by (simp add: xs group_keys_def group_values_def)
qed

lemma group_values_map: "group_values t ks (map h ks) = map h (group_keys t ks)"
  by (induction ks) (simp_all add: group_keys_def group_values_def)

lemma group_values_append:
  "length ys = length ks \<Longrightarrow>
   group_values t (ks @ [k]) (ys @ [y]) =
     group_values t ks ys @ (if snd k = t then [y] else [])"
  by (simp add: group_values_def)

lemma group_keys_append:
  "group_keys t (ks @ [k]) = group_keys t ks @ (if snd k = t then [k] else [])"
  by (simp add: group_keys_def)

lemma in_group_keys: "k \<in> set (group_keys t ks) \<longleftrightarrow> k \<in> set ks \<and> snd k = t"
  by (auto simp: group_keys_def)

lemma in_group_names: "t \<in> set (group_names ks) \<longleftrightarrow> t \<in> snd ` set ks"
  by (simp add: group_names_def)

lemma distinct_group_names: "distinct (group_names ks)"
  by (simp add: group_names_def)

lemma distinct_group_keys: "distinct ks \<Longrightarrow> distinct (group_keys t ks)"
  by (simp add: group_keys_def)

subsection \<open>Labels of a grouped result\<close>

lemma distinct_concat_groups:
  "distinct ks \<Longrightarrow> distinct ts \<Longrightarrow> distinct (concat (map (\<lambda>t. group_keys t ks) ts))"
proof (induction ts)
  case Nil
  then show ?case by simp
next
  case (Cons t ts)
  have "set (group_keys t ks) \<inter> set (concat (map (\<lambda>t. group_keys t ks) ts)) = {}"
    using Cons.prems(2) by (auto simp: in_group_keys)
  with Cons show ?case
    by (simp add: distinct_group_keys)
qed

lemma labels_groupby_apply:
  assumes "length xs = length ks" and "\<And>zs. length (f zs) = length zs"
  shows "map fst (groupby_apply f ks xs) = concat (map (\<lambda>t. group_keys t ks) (group_names ks))"
proof -
  have "map fst (zip (group_keys t ks) (f (group_values t ks xs))) = group_keys t ks" for t
    using assms by (simp add: length_group_values)
  then show ?thesis
    by (simp add: groupby_apply_def map_concat comp_def)
qed

lemma distinct_labels_groupby_apply:
  assumes "distinct ks" and "length xs = length ks" and "\<And>zs. length (f zs) = length zs"
  shows "distinct (map fst (groupby_apply f ks xs))"
  using labels_groupby_apply [OF assms(2,3)] distinct_concat_groups [OF assms(1) distinct_group_names]
  by simp

subsection \<open>Looking a label up in a grouped result\<close>

lemma map_of_concat_none:
  "(\<And>t. t \<in> set ts \<Longrightarrow> k \<notin> fst ` set (g t)) \<Longrightarrow> map_of (concat (map g ts)) k = None"
proof (induction ts)
  case Nil
  then show ?case by simp
next
  case (Cons t ts)
  have "map_of (g t) k = None"
    using Cons.prems [of t] by (simp add: map_of_eq_None_iff)
  moreover have "map_of (concat (map g ts)) k = None"
    using Cons.prems by (intro Cons.IH) simp
  ultimately show ?case by (simp add: map_add_def)
qed

lemma map_of_concat_one:
  assumes "t \<in> set ts" and "\<And>u. u \<in> set ts \<Longrightarrow> u \<noteq> t \<Longrightarrow> k \<notin> fst ` set (g u)"
  shows "map_of (concat (map g ts)) k = map_of (g t) k"
  using assms
proof (induction ts)
  case Nil
  then show ?case by simp
next
  case (Cons u us)
  show ?case
  proof (cases "u = t")
    case True
    show ?thesis
    proof (cases "map_of (g t) k")
      case (Some v)
      with True show ?thesis by (simp add: map_add_def)
    next
      case None
      then have nk: "k \<notin> fst ` set (g t)"
        by (simp add: map_of_eq_None_iff)
      have "map_of (concat (map g us)) k = None"
      proof (rule map_of_concat_none)
        fix w assume "w \<in> set us"
        then show "k \<notin> fst ` set (g w)"
          using nk Cons.prems(2) [of w] by (cases "w = t") simp_all
      qed
      with None True show ?thesis by (simp add: map_add_def)
    qed
  next
    case False
    with Cons.prems have t: "t \<in> set us" by simp
    have "map_of (g u) k = None"
      using Cons.prems(2) [of u] False by (simp add: map_of_eq_None_iff)
    moreover have "map_of (concat (map g us)) k = map_of (g t) k"
      using t Cons.prems(2) by (intro Cons.IH) simp_all
    ultimately show ?thesis by (simp add: map_add_def)
  qed
qed

lemma lookup_groupby_apply:
  assumes "k \<in> set ks"
  shows "map_of (groupby_apply f ks xs) k =
         map_of (zip (group_keys (snd k) ks) (f (group_values (snd k) ks xs))) k"
  unfolding groupby_apply_def
proof (rule map_of_concat_one)
  show "snd k \<in> set (group_names ks)"
    using assms by (simp add: in_group_names)
next
  fix u assume "u \<in> set (group_names ks)" and "u \<noteq> snd k"
  then show "k \<notin> fst ` set (zip (group_keys u ks) (f (group_values u ks xs)))"
    by (auto dest!: set_zip_leftD simp: in_group_keys)
qed

lemma reindex_zip_same:
  assumes "distinct gk" and "length ys = length gk"
  shows "map (\<lambda>k. case map_of (zip gk ys) k of None \<Rightarrow> None | Some v \<Rightarrow> v) gk = ys"
proof (rule nth_equalityI)
  show "length (map (\<lambda>k. case map_of (zip gk ys) k of None \<Rightarrow> None | Some v \<Rightarrow> v) gk) = length ys"
    using assms by simp
next
  fix i assume "i < length (map (\<lambda>k. case map_of (zip gk ys) k of None \<Rightarrow> None | Some v \<Rightarrow> v) gk)"
  then have i: "i < length ys" using assms by simp
  have "map_of (zip gk ys) (gk ! i) = Some (ys ! i)"
    using assms i by (intro map_of_zip_nth) simp_all
  then show "map (\<lambda>k. case map_of (zip gk ys) k of None \<Rightarrow> None | Some v \<Rightarrow> v) gk ! i = ys ! i"
    using i assms by simp
qed

lemma length_reindex [simp]: "length (reindex s ks) = length ks"
  by (simp add: reindex_def)

text \<open>
  With unique row labels, aligning a grouped result on the frame gives every group its
  own values back, in the row order of the group.
\<close>

lemma group_values_reindex:
  assumes "distinct ks" and "length xs = length ks" and "\<And>zs. length (f zs) = length zs"
  shows "group_values t ks (reindex (groupby_apply f ks xs) ks) = f (group_values t ks xs)"
proof -
  let ?gk = "group_keys t ks" and ?ys = "f (group_values t ks xs)"
  let ?h = "\<lambda>k. case map_of (groupby_apply f ks xs) k of None \<Rightarrow> None | Some v \<Rightarrow> v"
  let ?h' = "\<lambda>k. case map_of (zip ?gk ?ys) k of None \<Rightarrow> None | Some v \<Rightarrow> v"
  have len: "length ?ys = length ?gk"
    using assms(2,3) by (simp add: length_group_values)
  have "group_values t ks (reindex (groupby_apply f ks xs) ks) = map ?h ?gk"
    by (simp add: reindex_def group_values_map)
  also have "map ?h ?gk = map ?h' ?gk"
  proof (rule map_cong [OF refl])
    fix k assume "k \<in> set ?gk"
    then have "k \<in> set ks" and "snd k = t"
      by (simp_all add: in_group_keys)
    then show "?h k = ?h' k"
      using lookup_groupby_apply [of k ks f xs] by simp
  qed
  also have "map ?h' ?gk = ?ys"
    using distinct_group_keys [OF assms(1)] len by (rule reindex_zip_same)
  finally show ?thesis .
qed

lemma reindex_own_labels:
  "distinct (map fst s) \<Longrightarrow> reindex s (map fst s) = map snd s"
proof -
  assume d: "distinct (map fst s)"
  have "(case map_of s (fst p) of None \<Rightarrow> None | Some v \<Rightarrow> v) = snd p" if "p \<in> set s" for p
  proof -
    have "map_of s (fst p) = Some (snd p)"
      using d that by (intro map_of_is_SomeI) simp_all
    then show ?thesis by simp
  qed
  then show ?thesis
    by (simp add: reindex_def)
qed

lemma setitem_series_groupby:
  assumes "distinct (index df)" and "length xs = length (index df)"
    and "\<And>zs. length (f zs) = length zs"
  shows "setitem_series df col (groupby_apply f (index df) xs) =
         Inr (setitem df col (reindex (groupby_apply f (index df) xs) (index df)))"
proof -
  let ?s = "groupby_apply f (index df) xs"
  have d: "distinct (map fst ?s)"
    using assms by (rule distinct_labels_groupby_apply)
  show ?thesis
  proof (cases "map fst ?s = index df")
    case True
    then have "reindex ?s (index df) = map snd ?s"
      using reindex_own_labels [OF d] by simp
    with True show ?thesis by (simp add: setitem_series_def)
  next
    case False
    show ?thesis
    proof (cases "index df = []")
      case True
      then have "?s = []"
        by (simp add: groupby_apply_def group_names_def)
      with True show ?thesis by (simp add: setitem_series_def reindex_def)
    next
      case nonempty: False
      with False d show ?thesis by (simp add: setitem_series_def)
    qed
  qed
qed

subsection \<open>Grouped results in row order\<close>

lemma rank_in_group_prefix:
  "i < length ks \<Longrightarrow> rank_in_group (ks @ [k]) i = rank_in_group ks i"
  by (simp add: rank_in_group_def nth_append)

lemma rank_in_group_last:
  "rank_in_group (ks @ [k]) (length ks) = length (group_keys (snd k) ks)"
  by (simp add: rank_in_group_def group_keys_def)

lemma group_values_in_row_order:
  "length (group_keys t ks) \<le> length (g t) \<Longrightarrow>
   group_values t ks (map (\<lambda>i. g (snd (ks ! i)) ! rank_in_group ks i) [0..<length ks]) =
     take (length (group_keys t ks)) (g t)"
proof (induction ks rule: rev_induct)
  case Nil
  then show ?case by (simp add: group_values_def group_keys_def)
next
  case (snoc k ks)
  let ?T = "\<lambda>ks. map (\<lambda>i. g (snd (ks ! i)) ! rank_in_group ks i) [0..<length ks]"
  have split: "?T (ks @ [k]) = ?T ks @ [g (snd k) ! length (group_keys (snd k) ks)]"
    by (simp add: rank_in_group_prefix rank_in_group_last nth_append)
  have le: "length (group_keys t ks) \<le> length (g t)"
    using snoc.prems by (simp add: group_keys_append split: if_splits)
  have IH: "group_values t ks (?T ks) = take (length (group_keys t ks)) (g t)"
    using snoc.IH [OF le] .
  have "group_values t (ks @ [k]) (?T ks @ [g (snd k) ! length (group_keys (snd k) ks)]) =
      group_values t ks (?T ks) @
        (if snd k = t then [g (snd k) ! length (group_keys (snd k) ks)] else [])"
    by (rule group_values_append) simp
  also have "\<dots> = take (length (group_keys t (ks @ [k]))) (g t)"
  proof (cases "snd k = t")
    case True
    then have "length (group_keys t ks) < length (g t)"
      using snoc.prems by (simp add: group_keys_append)
    then show ?thesis
      using True IH by (simp add: group_keys_append take_Suc_conv_app_nth)
  next
    case False
    then show ?thesis using IH by (simp add: group_keys_append)
  qed
  finally show ?case unfolding split .
qed

lemma group_values_groupby_transform:
  assumes "length xs = length ks" and "\<And>zs. length (f zs) = length zs"
  shows "group_values t ks (groupby_transform f ks xs) = f (group_values t ks xs)"
proof -
  have len: "length (f (group_values t ks xs)) = length (group_keys t ks)"
    using assms by (simp add: length_group_values)
  have "group_values t ks (groupby_transform f ks xs) =
      take (length (group_keys t ks)) (f (group_values t ks xs))"
    unfolding groupby_transform_def
    by (rule group_values_in_row_order [where g = "\<lambda>t. f (group_values t ks xs)"])
      (simp add: len)
  then show ?thesis using len by simp
qed

lemma length_groupby_transform [simp]: "length (groupby_transform f ks xs) = length ks"
  by (simp add: groupby_transform_def)

section \<open>Window functions\<close>

lemma length_shift1 [simp]: "length (shift1 xs) = length xs"
  by (cases xs) (simp_all add: shift1_def)

lemma length_pct_change [simp]: "length (pct_change xs) = length xs"
  by (simp add: pct_change_def Let_def)

lemma length_rolling_mean [simp]: "length (rolling_mean w xs) = length xs"
  by (simp add: rolling_mean_def)

lemma rolling_mean_nth:
  "i < length xs \<Longrightarrow> rolling_mean w xs ! i = window_mean (trailing_window w xs i)"
  by (simp add: rolling_mean_def)

lemma length_trailing_window:
  "i < length xs \<Longrightarrow> length (trailing_window w xs i) = min (Suc i) w"
  by (auto simp: trailing_window_def min_def)

lemma window_mean_None_iff: "window_mean ws = None \<longleftrightarrow> (\<forall>x \<in> set ws. x = None)"
proof -
  have "filter (\<lambda>x. x \<noteq> None) ws = [] \<longleftrightarrow> (\<forall>x \<in> set ws. x = None)"
    by (induction ws) auto
  then show ?thesis
    by (auto simp: window_mean_def observed_def min_periods_def Let_def Suc_le_eq)
qed

lemma last_in_trailing_window:
  assumes "i < length xs" and "1 \<le> w"
  shows "xs ! i \<in> set (trailing_window w xs i)"
proof -
  have "take (Suc i) xs = take i xs @ [xs ! i]"
    using assms(1) by (rule take_Suc_conv_app_nth)
  moreover have "Suc i - w \<le> i"
    using assms(2) by simp
  ultimately show ?thesis
    using assms(1) by (simp add: trailing_window_def)
qed

lemma rolling_mean_defined:
  assumes "i < length xs" and "1 \<le> w" and "xs ! i \<noteq> None"
  shows "rolling_mean w xs ! i \<noteq> None"
  using assms last_in_trailing_window [OF assms(1,2)]
  by (auto simp: rolling_mean_nth window_mean_None_iff)

lemma length_ewm_loop [simp]: "length (ewm_loop \<alpha> weighted old_wt nobs xs) = length xs"
  by (induction xs arbitrary: weighted old_wt nobs) (simp_all add: Let_def)

lemma length_ewm_mean [simp]: "length (ewm_mean \<alpha> xs) = length xs"
  by (cases xs) (simp_all add: ewm_mean_def)

lemma ewm_mean_seed: "xs \<noteq> [] \<Longrightarrow> ewm_mean \<alpha> xs ! 0 = xs ! 0"
  by (cases xs) (auto simp: ewm_mean_def is_observation_def)

lemma ewm_update:
  "(if w \<noteq> c then ((1 - \<alpha>) * w + \<alpha> * c) / ((1 - \<alpha>) + \<alpha>) else w) =
   \<alpha> * c + (1 - \<alpha>) * (w::real)"
  by (simp add: algebra_simps)

lemma ewm_step_present:
  "ewm_loop \<alpha> (Some w) 1 nobs (Some c # rest) ! 0 = Some (\<alpha> * c + (1 - \<alpha>) * w)"
proof -
  have "ewm_loop \<alpha> (Some w) 1 nobs (Some c # rest) ! 0 =
      Some (if w \<noteq> c then ((1 - \<alpha>) * w + \<alpha> * c) / ((1 - \<alpha>) + \<alpha>) else w)"
    by (simp add: Let_def is_observation_def)
  then show ?thesis
    by (simp only: ewm_update)
qed

lemma ewm_loop_two_present:
  assumes "xs = Some p # Some c # rest" and "weighted = None \<longrightarrow> old_wt = 1"
  shows "\<exists>e. ewm_loop \<alpha> weighted old_wt nobs xs ! 0 = Some e \<and>
             ewm_loop \<alpha> weighted old_wt nobs xs ! 1 = Some (\<alpha> * c + (1 - \<alpha>) * e)"
proof -
  obtain e where first: "ewm_loop \<alpha> weighted old_wt nobs xs =
      Some e # ewm_loop \<alpha> (Some e) 1 (nobs + 1) (Some c # rest)"
    using assms by (cases weighted) (simp_all add: Let_def is_observation_def)
  have "ewm_loop \<alpha> weighted old_wt nobs xs ! 1 =
      ewm_loop \<alpha> (Some e) 1 (nobs + 1) (Some c # rest) ! 0"
    by (simp add: first)
  then show ?thesis
    using first by (simp only: ewm_step_present) simp
qed

lemma ewm_loop_recursion:
  assumes "Suc i < length xs" and "xs ! i = Some p" and "xs ! Suc i = Some c"
    and "weighted = None \<longrightarrow> old_wt = 1"
  shows "\<exists>e. ewm_loop \<alpha> weighted old_wt nobs xs ! i = Some e \<and>
             ewm_loop \<alpha> weighted old_wt nobs xs ! Suc i = Some (\<alpha> * c + (1 - \<alpha>) * e)"
  using assms
proof (induction xs arbitrary: i weighted old_wt nobs)
  case Nil
  then show ?case by simp
next
  case (Cons x xs)
  show ?case
  proof (cases i)
    case 0
    with Cons.prems obtain rest where "x # xs = Some p # Some c # rest"
      by (cases xs) auto
    from ewm_loop_two_present [OF this Cons.prems(4)] 0 show ?thesis by simp
  next
    case (Suc j)
    let ?st = "(case weighted of
                  Some w \<Rightarrow>
                    (let aged = old_wt * (1 - \<alpha>)
                     in case x of
                          Some c \<Rightarrow>
                            (Some (if w \<noteq> c then (aged * w + \<alpha> * c) / (aged + \<alpha>) else w), 1)
                        | None \<Rightarrow> (Some w, aged))
                | None \<Rightarrow> (x, old_wt))"
    have inv: "fst ?st = None \<longrightarrow> snd ?st = 1"
      using Cons.prems(4) by (auto simp: Let_def split: option.splits)
    have "\<exists>e. ewm_loop \<alpha> (fst ?st) (snd ?st) (nobs + is_observation x) xs ! j = Some e \<and>
             ewm_loop \<alpha> (fst ?st) (snd ?st) (nobs + is_observation x) xs ! Suc j =
               Some (\<alpha> * c + (1 - \<alpha>) * e)"
      using Cons.prems(1,2,3) Suc inv by (intro Cons.IH) simp_all
    then show ?thesis
      using Suc by (simp add: Let_def)
  qed
qed

lemma ewm_mean_recursion:
  assumes "Suc i < length xs" and "xs ! i = Some p" and "xs ! Suc i = Some c"
  shows "\<exists>e. ewm_mean \<alpha> xs ! i = Some e \<and>
             ewm_mean \<alpha> xs ! Suc i = Some (\<alpha> * c + (1 - \<alpha>) * e)"
proof (cases xs)
  case Nil
  with assms show ?thesis by simp
next
  case (Cons x rest)
  show ?thesis
  proof (cases i)
    case 0
    with assms Cons obtain rest' where rest: "rest = Some c # rest'" and x: "x = Some p"
      by (cases rest) auto
    have "ewm_mean \<alpha> xs = Some p # ewm_loop \<alpha> (Some p) 1 1 (Some c # rest')"
      by (simp add: Cons rest x ewm_mean_def is_observation_def)
    then show ?thesis
      using 0 ewm_step_present [of \<alpha> p 1 c rest'] by simp
  next
    case (Suc j)
    have "\<exists>e. ewm_loop \<alpha> x 1 (is_observation x) rest ! j = Some e \<and>
             ewm_loop \<alpha> x 1 (is_observation x) rest ! Suc j = Some (\<alpha> * c + (1 - \<alpha>) * e)"
      using assms Cons Suc by (intro ewm_loop_recursion) simp_all
    then show ?thesis
      using Suc by (simp add: Cons ewm_mean_def)
  qed
qed

section \<open>The grouped features\<close>

lemma add_rolling_average_run:
  assumes "wf_panel df" and "distinct (index df)" and "1 \<le> window"
    and "getitem df ''Close'' = Inr close"
  shows "add_rolling_average window df =
    Inr (setitem df (roll_avg_days_column window)
          (reindex (groupby_apply (rolling_mean (nat window)) (index df) close) (index df)))"
proof -
  have len: "length close = length (index df)"
    using assms(1,4) by (rule wf_getitem_length)
  have "setitem_series df (roll_avg_days_column window)
          (groupby_apply (rolling_mean (nat window)) (index df) close) =
    Inr (setitem df (roll_avg_days_column window)
          (reindex (groupby_apply (rolling_mean (nat window)) (index df) close) (index df)))"
    using assms(2) len by (rule setitem_series_groupby) simp
  then show ?thesis
    using assms(3,4) by (simp add: add_rolling_average_def min_periods_def)
qed

lemma add_ema_run:
  assumes "wf_panel df" and "distinct (index df)" and "1 \<le> span'"
    and "getitem df ''Close'' = Inr close"
  shows "add_ema span' df =
    Inr (setitem df (ema_column span')
          (reindex (groupby_apply (ewm_mean (ewm_alpha span')) (index df) close) (index df)))"
proof -
  have len: "length close = length (index df)"
    using assms(1,4) by (rule wf_getitem_length)
  have "setitem_series df (ema_column span')
          (groupby_apply (ewm_mean (ewm_alpha span')) (index df) close) =
    Inr (setitem df (ema_column span')
          (reindex (groupby_apply (ewm_mean (ewm_alpha span')) (index df) close) (index df)))"
    using assms(2) len by (rule setitem_series_groupby) simp
  then show ?thesis
    using assms(3,4) by (simp add: add_ema_def)
qed

lemma add_daily_return_run:
  assumes "getitem df ''Close'' = Inr close"
  shows "add_daily_return df =
    Inr (setitem df ''DailyReturn'' (groupby_transform pct_change (index df) close))"
  using assms by (simp add: add_daily_return_def)

text \<open>
  Claim C3, as the code has it. On a frame with unique row labels and for a window of
  at least 1, the rolling-average step succeeds. Inside every ticker group, taken in
  the row order of the frame, the value on row \<open>i\<close> is the mean of the Close values
  present among that row and the rows before it in the group, at most \<open>window\<close> rows
  in all (fewer at the start of the group). It is missing exactly when none of these
  Close values is present; on a row whose own Close is present it is never missing.
\<close>

theorem rolling_average_missing_only_without_close:
  assumes "wf_panel df" and "distinct (index df)" and "1 \<le> window"
    and "getitem df ''Close'' = Inr close"
  shows "\<exists>df' roll. add_rolling_average window df = Inr df' \<and>
           index df' = index df \<and>
           getitem df' (roll_avg_days_column window) = Inr roll \<and>
           length roll = length (index df) \<and>
           (\<forall>t. \<forall>i < length (group_values t (index df) close).
              group_values t (index df) roll ! i =
                window_mean (trailing_window (nat window) (group_values t (index df) close) i) \<and>
              length (trailing_window (nat window) (group_values t (index df) close) i) =
                min (Suc i) (nat window) \<and>
              (group_values t (index df) roll ! i = None \<longleftrightarrow>
                 (\<forall>x \<in> set (trailing_window (nat window) (group_values t (index df) close) i).
                    x = None)) \<and>
              (group_values t (index df) close ! i \<noteq> None \<longrightarrow>
                 group_values t (index df) roll ! i \<noteq> None))"
proof -
  let ?ks = "index df"
  let ?w = "nat window"
  let ?roll = "reindex (groupby_apply (rolling_mean ?w) ?ks close) ?ks"
  let ?df = "setitem df (roll_avg_days_column window) ?roll"
  have len: "length close = length ?ks"
    using assms(1,4) by (rule wf_getitem_length)
  have w: "1 \<le> ?w"
    using assms(3) by simp
  have run: "add_rolling_average window df = Inr ?df"
    using assms by (rule add_rolling_average_run)
  have idx: "index ?df = index df"
    by simp
  have col: "getitem ?df (roll_avg_days_column window) = Inr ?roll"
    by (simp add: getitem_setitem)
  have lroll: "length ?roll = length ?ks"
    by simp
  have grp: "group_values t ?ks ?roll = rolling_mean ?w (group_values t ?ks close)" for t
    using assms(2) len by (rule group_values_reindex) simp
  have rows: "\<forall>t. \<forall>i < length (group_values t ?ks close).
      group_values t ?ks ?roll ! i =
        window_mean (trailing_window ?w (group_values t ?ks close) i) \<and>
      length (trailing_window ?w (group_values t ?ks close) i) = min (Suc i) ?w \<and>
      (group_values t ?ks ?roll ! i = None \<longleftrightarrow>
         (\<forall>x \<in> set (trailing_window ?w (group_values t ?ks close) i). x = None)) \<and>
      (group_values t ?ks close ! i \<noteq> None \<longrightarrow> group_values t ?ks ?roll ! i \<noteq> None)"
  proof (intro allI impI)
    fix t i assume i: "i < length (group_values t ?ks close)"
    let ?cs = "group_values t ?ks close"
    have a: "group_values t ?ks ?roll ! i = window_mean (trailing_window ?w ?cs i)"
      using i by (simp add: grp rolling_mean_nth)
    have b: "length (trailing_window ?w ?cs i) = min (Suc i) ?w"
      using i by (rule length_trailing_window)
    have c: "group_values t ?ks ?roll ! i = None \<longleftrightarrow>
        (\<forall>x \<in> set (trailing_window ?w ?cs i). x = None)"
      by (simp only: a window_mean_None_iff)
    have d: "?cs ! i \<noteq> None \<longrightarrow> group_values t ?ks ?roll ! i \<noteq> None"
      using rolling_mean_defined [OF i w] by (simp add: grp)
    from a b c d
    show "group_values t ?ks ?roll ! i = window_mean (trailing_window ?w ?cs i) \<and>
      length (trailing_window ?w ?cs i) = min (Suc i) ?w \<and>
      (group_values t ?ks ?roll ! i = None \<longleftrightarrow>
         (\<forall>x \<in> set (trailing_window ?w ?cs i). x = None)) \<and>
      (?cs ! i \<noteq> None \<longrightarrow> group_values t ?ks ?roll ! i \<noteq> None)"
      by (intro conjI)
  qed
  show ?thesis
    by (rule exI [of _ ?df], rule exI [of _ ?roll], intro conjI)
      (rule run idx col lroll rows)+
qed

lemmas feature_eval =
  add_rolling_average_def add_ema_def add_daily_return_def getitem_def min_periods_def
  groupby_apply_def groupby_transform_def rank_in_group_def group_names_def group_keys_def
  group_values_def rolling_mean_def trailing_window_def window_mean_def observed_def
  ewm_mean_def ewm_alpha_def is_observation_def pct_change_def ffill_def shift1_def
  ratio_change_def setitem_series_def reindex_def setitem_def Let_def
  roll_avg_days_column_def ema_column_def str_int_def str_nat.simps digit_def upt_rec

lemma mixed_panel_facts:
  "wf_panel mixed_panel" "distinct (index mixed_panel)"
  "getitem mixed_panel ''Close'' = Inr [Some 1, Some 1, Some 3, None, Some 3]"
  by (simp_all add: wf_panel_def mixed_panel_def getitem_def)

theorem rolling_average_missing_only_without_close_witness:
  "wf_panel mixed_panel \<and> distinct (index mixed_panel) \<and> (1::int) \<le> 2 \<and>
   getitem mixed_panel ''Close'' = Inr [Some 1, Some 1, Some 3, None, Some 3] \<and>
   add_rolling_average 2 mixed_panel =
     Inr (setitem mixed_panel ''RollAvg2Days'' [Some 1, Some 1, Some 2, Some 1, Some 3]) \<and>
   (\<exists>df' roll. add_rolling_average 2 mixed_panel = Inr df' \<and>
      getitem df' (roll_avg_days_column 2) = Inr roll \<and>
      length roll = length (index mixed_panel))"
proof -
  have w: "(1::int) \<le> 2" by simp
  have run: "add_rolling_average 2 mixed_panel =
     Inr (setitem mixed_panel ''RollAvg2Days'' [Some 1, Some 1, Some 2, Some 1, Some 3])"
    by (simp add: feature_eval mixed_panel_def)
  have "\<exists>df' roll. add_rolling_average 2 mixed_panel = Inr df' \<and>
      getitem df' (roll_avg_days_column 2) = Inr roll \<and>
      length roll = length (index mixed_panel)"
    using rolling_average_missing_only_without_close
      [OF mixed_panel_facts(1) mixed_panel_facts(2) w mixed_panel_facts(3)]
    by (elim exE conjE) blast
  with mixed_panel_facts w run show ?thesis
    by (intro conjI)
qed

text \<open>
  Claim C3 as stated fails: cleaning leaves the leading gap of Close in
  \<^const>\<open>gap_panel\<close>, and the rolling average of the first AAPL row is then missing.
\<close>

theorem rolling_average_never_null_counterexample:
  "clean gap_panel = Inr gap_panel_cleaned \<and>
   add_rolling_average 2 gap_panel_cleaned =
     Inr (setitem gap_panel_cleaned ''RollAvg2Days'' [None, Some 10, Some 10, Some 7]) \<and>
   cell_at (setitem gap_panel_cleaned ''RollAvg2Days'' [None, Some 10, Some 10, Some 7])
     ''RollAvg2Days'' (1, ''AAPL'') = Some None"
proof (intro conjI)
  show "clean gap_panel = Inr gap_panel_cleaned"
    by (simp add: gap_panel_def gap_panel_cleaned_def clean_def clean_step_def getitem_def
        setitem_def price_columns_def ffill_def)
  show "add_rolling_average 2 gap_panel_cleaned =
     Inr (setitem gap_panel_cleaned ''RollAvg2Days'' [None, Some 10, Some 10, Some 7])"
    by (simp add: feature_eval gap_panel_cleaned_def)
  show "cell_at (setitem gap_panel_cleaned ''RollAvg2Days'' [None, Some 10, Some 10, Some 7])
     ''RollAvg2Days'' (1, ''AAPL'') = Some None"
    by (simp add: cell_at_def setitem_def gap_panel_cleaned_def)
qed

text \<open>
  Claim C2, as the code has it. On a frame with unique row labels and for a span of at
  least 1, the EMA step succeeds, with \<open>\<alpha> = 2 / (span + 1)\<close>. Inside every ticker
  group, taken in the row order of the frame, the EMA of the first row is its Close
  (missing when that is missing), and on every later row whose Close and whose
  predecessor's Close are both present the EMA is \<open>\<alpha>\<close> times the Close plus
  \<open>1 - \<alpha>\<close> times the EMA of the row before.
\<close>

theorem ema_recursion_between_present_rows:
  assumes "wf_panel df" and "distinct (index df)" and "1 \<le> span'"
    and "getitem df ''Close'' = Inr close"
  shows "\<exists>df' ema. add_ema span' df = Inr df' \<and>
           index df' = index df \<and>
           getitem df' (ema_column span') = Inr ema \<and>
           length ema = length (index df) \<and>
           ewm_alpha span' = 2 / (real_of_int span' + 1) \<and>
           (\<forall>t. length (group_values t (index df) ema) =
                  length (group_values t (index df) close) \<and>
                (group_values t (index df) close \<noteq> [] \<longrightarrow>
                   group_values t (index df) ema ! 0 = group_values t (index df) close ! 0) \<and>
                (\<forall>i p c. Suc i < length (group_values t (index df) close) \<and>
                     group_values t (index df) close ! i = Some p \<and>
                     group_values t (index df) close ! Suc i = Some c \<longrightarrow>
                   (\<exists>e. group_values t (index df) ema ! i = Some e \<and>
                        group_values t (index df) ema ! Suc i =
                          Some (ewm_alpha span' * c + (1 - ewm_alpha span') * e))))"
proof -
  let ?ks = "index df"
  let ?a = "ewm_alpha span'"
  let ?ema = "reindex (groupby_apply (ewm_mean ?a) ?ks close) ?ks"
  let ?df = "setitem df (ema_column span') ?ema"
  have len: "length close = length ?ks"
    using assms(1,4) by (rule wf_getitem_length)
  have run: "add_ema span' df = Inr ?df"
    using assms by (rule add_ema_run)
  have idx: "index ?df = index df"
    by simp
  have col: "getitem ?df (ema_column span') = Inr ?ema"
    by (simp add: getitem_setitem)
  have lema: "length ?ema = length ?ks"
    by simp
  have alpha: "?a = 2 / (real_of_int span' + 1)"
    by (rule ewm_alpha_def)
  have grp: "group_values t ?ks ?ema = ewm_mean ?a (group_values t ?ks close)" for t
    using assms(2) len by (rule group_values_reindex) simp
  have rows: "\<forall>t. length (group_values t ?ks ?ema) = length (group_values t ?ks close) \<and>
      (group_values t ?ks close \<noteq> [] \<longrightarrow>
         group_values t ?ks ?ema ! 0 = group_values t ?ks close ! 0) \<and>
      (\<forall>i p c. Suc i < length (group_values t ?ks close) \<and>
           group_values t ?ks close ! i = Some p \<and>
           group_values t ?ks close ! Suc i = Some c \<longrightarrow>
         (\<exists>e. group_values t ?ks ?ema ! i = Some e \<and>
              group_values t ?ks ?ema ! Suc i = Some (?a * c + (1 - ?a) * e)))"
  proof (intro allI conjI impI)
    fix t
    show "length (group_values t ?ks ?ema) = length (group_values t ?ks close)"
      by (simp add: grp)
    show "group_values t ?ks ?ema ! 0 = group_values t ?ks close ! 0"
      if "group_values t ?ks close \<noteq> []"
      using that by (simp add: grp ewm_mean_seed)
    fix i p c
    assume "Suc i < length (group_values t ?ks close) \<and>
           group_values t ?ks close ! i = Some p \<and>
           group_values t ?ks close ! Suc i = Some c"
    then show "\<exists>e. group_values t ?ks ?ema ! i = Some e \<and>
              group_values t ?ks ?ema ! Suc i = Some (?a * c + (1 - ?a) * e)"
      unfolding grp by (intro ewm_mean_recursion [where p = p]) simp_all
  qed
  show ?thesis
    by (rule exI [of _ ?df], rule exI [of _ ?ema], intro conjI)
      (rule run idx col lema alpha rows)+
qed

theorem ema_recursion_between_present_rows_witness:
  "wf_panel mixed_panel \<and> distinct (index mixed_panel) \<and> (1::int) \<le> 2 \<and>
   getitem mixed_panel ''Close'' = Inr [Some 1, Some 1, Some 3, None, Some 3] \<and>
   add_ema 2 mixed_panel =
     Inr (setitem mixed_panel ''EMA2'' [Some 1, Some 1, Some (7 / 3), Some 1, Some (19 / 7)]) \<and>
   (\<exists>df' ema. add_ema 2 mixed_panel = Inr df' \<and>
      getitem df' (ema_column 2) = Inr ema \<and>
      length ema = length (index mixed_panel))"
proof -
  have w: "(1::int) \<le> 2" by simp
  have run: "add_ema 2 mixed_panel =
     Inr (setitem mixed_panel ''EMA2'' [Some 1, Some 1, Some (7 / 3), Some 1, Some (19 / 7)])"
    by (simp add: feature_eval mixed_panel_def)
  have "\<exists>df' ema. add_ema 2 mixed_panel = Inr df' \<and>
      getitem df' (ema_column 2) = Inr ema \<and>
      length ema = length (index mixed_panel)"
    using ema_recursion_between_present_rows
      [OF mixed_panel_facts(1) mixed_panel_facts(2) w mixed_panel_facts(3)]
    by (elim exE conjE) blast
  with mixed_panel_facts w run show ?thesis
    by (intro conjI)
qed

text \<open>
  Claim C2 as stated fails on \<^const>\<open>mixed_panel\<close>. The AAPL rows have Close 1, missing,
  3: the EMA is 1, 1, 19/7, while the stated recursion would give
  \<open>2/3 * 3 + 1/3 * 1 = 7/3\<close> on the third row. The MSFT rows come with date 2 before
  date 1: the EMA of the row of date 1, the first in ascending date order, is 7/3 and
  not its Close 3.
\<close>

theorem ema_recursion_counterexample:
  "add_ema 2 mixed_panel =
     Inr (setitem mixed_panel ''EMA2'' [Some 1, Some 1, Some (7 / 3), Some 1, Some (19 / 7)]) \<and>
   group_values ''AAPL'' (index mixed_panel) [Some 1, Some 1, Some 3, None, Some 3] =
     [Some 1, None, Some 3] \<and>
   group_values ''AAPL'' (index mixed_panel)
       [Some 1, Some 1, Some (7 / 3), Some 1, Some (19 / 7)] =
     [Some 1, Some 1, Some (19 / 7)] \<and>
   ewm_alpha 2 * 3 + (1 - ewm_alpha 2) * 1 = 7 / 3 \<and>
   (19 / 7 :: real) \<noteq> 7 / 3 \<and>
   cell_at mixed_panel ''Close'' (1, ''MSFT'') = Some (Some 3) \<and>
   cell_at (setitem mixed_panel ''EMA2'' [Some 1, Some 1, Some (7 / 3), Some 1, Some (19 / 7)])
     ''EMA2'' (1, ''MSFT'') = Some (Some (7 / 3))"
proof (intro conjI)
  show "add_ema 2 mixed_panel =
     Inr (setitem mixed_panel ''EMA2'' [Some 1, Some 1, Some (7 / 3), Some 1, Some (19 / 7)])"
    by (simp add: feature_eval mixed_panel_def)
qed (simp_all add: group_values_def mixed_panel_def ewm_alpha_def cell_at_def setitem_def)

section \<open>Rows sorted by date\<close>

lemma nth_filter_upt:
  "map ((!) ks) (filter (\<lambda>i. Q (ks ! i)) [0..<length ks]) = filter Q ks"
proof -
  have "filter Q ks = filter Q (map ((!) ks) [0..<length ks])"
    by (simp only: map_nth)
  also have "\<dots> = map ((!) ks) (filter (Q \<circ> (!) ks) [0..<length ks])"
    by (rule filter_map)
  finally show ?thesis
    by (simp add: comp_def)
qed

lemma zip_map_same: "zip (map f l) (map g l) = map (\<lambda>i. (f i, g i)) l"
  by (induction l) simp_all

lemma group_values_of_positions:
  "group_values t (map ((!) ks) l) (map ((!) xs) l) =
   map ((!) xs) (filter (\<lambda>i. snd (ks ! i) = t) l)"
  by (simp add: group_values_def zip_map_same filter_map comp_def)

lemma group_keys_of_positions:
  "group_keys t (map ((!) ks) l) = map ((!) ks) (filter (\<lambda>i. snd (ks ! i) = t) l)"
  by (simp add: group_keys_def filter_map comp_def)

lemma group_values_as_positions:
  assumes "length xs = length ks"
  shows "group_values t ks xs = map ((!) xs) (filter (\<lambda>i. snd (ks ! i) = t) [0..<length ks])"
proof -
  have "group_values t ks xs =
      group_values t (map ((!) ks) [0..<length ks]) (map ((!) xs) [0..<length ks])"
    using map_nth [of ks] map_nth [of xs] assms by simp
  then show ?thesis
    by (simp only: group_values_of_positions)
qed

text \<open>
  When the rows of a ticker already come in ascending date order, the stable sort by
  date keeps them in the same order among themselves.
\<close>

lemma date_order_group:
  assumes "sorted (map fst (group_keys t ks))"
  shows "filter (\<lambda>i. snd (ks ! i) = t) (date_order ks) =
         filter (\<lambda>i. snd (ks ! i) = t) [0..<length ks]"
proof -
  let ?P = "\<lambda>i. snd (ks ! i) = t"
  have "map (\<lambda>i. fst (ks ! i)) (filter ?P [0..<length ks]) =
      map fst (map ((!) ks) (filter ?P [0..<length ks]))"
    by simp
  also have "\<dots> = map fst (group_keys t ks)"
    by (simp only: nth_filter_upt [of ks "\<lambda>k. snd k = t"] group_keys_def)
  finally have "sorted (map (\<lambda>i. fst (ks ! i)) (filter ?P [0..<length ks]))"
    using assms by simp
  then have "sort_key (\<lambda>i. fst (ks ! i)) (filter ?P [0..<length ks]) =
      filter ?P [0..<length ks]"
    by (rule sort_key_id_if_sorted)
  then show ?thesis
    by (simp add: date_order_def filter_sort)
qed

lemma group_keys_sorted:
  assumes "sorted (map fst (group_keys t ks))"
  shows "group_keys t (map ((!) ks) (date_order ks)) = group_keys t ks"
proof -
  have "group_keys t (map ((!) ks) (date_order ks)) =
      map ((!) ks) (filter (\<lambda>i. snd (ks ! i) = t) [0..<length ks])"
    by (simp only: group_keys_of_positions date_order_group [OF assms])
  also have "\<dots> = group_keys t ks"
    by (simp only: nth_filter_upt [of ks "\<lambda>k. snd k = t"] group_keys_def)
  finally show ?thesis .
qed

lemma group_values_sorted:
  assumes "sorted (map fst (group_keys t ks))" and "length xs = length ks"
  shows "group_values t (map ((!) ks) (date_order ks)) (map ((!) xs) (date_order ks)) =
         group_values t ks xs"
  by (simp only: group_values_of_positions date_order_group [OF assms(1)]
      group_values_as_positions [OF assms(2)])

lemma length_date_order [simp]: "length (date_order ks) = length ks"
  by (simp add: date_order_def)

lemma index_sort_by_date: "index (sort_by_date df) = map ((!) (index df)) (date_order (index df))"
  by (simp add: sort_by_date_def Let_def)

lemma getitem_sort_by_date:
  "getitem df col = Inr xs \<Longrightarrow>
   getitem (sort_by_date df) col = Inr (map ((!) xs) (date_order (index df)))"
proof -
  assume "getitem df col = Inr xs"
  then have "map_of (columns df) col = Some xs"
    by (simp add: getitem_def split: option.splits)
  then have "map_of (map (\<lambda>(n, xs). (n, map ((!) xs) (date_order (index df)))) (columns df)) col =
      Some (map ((!) xs) (date_order (index df)))"
    by (simp add: map_of_map_named [where f = "\<lambda>n xs. map ((!) xs) (date_order (index df))"])
  then show ?thesis
    by (simp add: getitem_def sort_by_date_def Let_def)
qed

lemma wf_sort_by_date: "wf_panel df \<Longrightarrow> wf_panel (sort_by_date df)"
  by (auto simp: wf_panel_def sort_by_date_def Let_def list_all_iff comp_def case_prod_unfold)

lemma distinct_index_sort_by_date:
  assumes "distinct (index df)"
  shows "distinct (index (sort_by_date df))"
proof -
  have "distinct (date_order (index df))"
    by (simp add: date_order_def)
  moreover have "inj_on ((!) (index df)) (set (date_order (index df)))"
    using assms by (intro inj_on_nth) (simp_all add: date_order_def)
  ultimately show ?thesis
    by (simp add: index_sort_by_date distinct_map)
qed

subsection \<open>The value on the row with a given label\<close>

lemma map_of_filter_key:
  "map_of (filter (\<lambda>p. P (fst p)) ps) k = (if P k then map_of ps k else None)"
  by (induction ps) auto

lemma lookup_by_group:
  assumes "length xs = length ks"
  shows "map_of (zip ks xs) k =
         map_of (zip (group_keys (snd k) ks) (group_values (snd k) ks xs)) k"
proof -
  have "map_of (zip ks xs) k = map_of (filter (\<lambda>p. snd (fst p) = snd k) (zip ks xs)) k"
    by (simp add: map_of_filter_key [where P = "\<lambda>key. snd key = snd k"])
  then show ?thesis
    by (simp only: zip_group [OF assms])
qed

lemma lookup_same_groups:
  assumes "length xs = length ks" and "length xs' = length ks'"
    and "group_keys (snd k) ks' = group_keys (snd k) ks"
    and "group_values (snd k) ks' xs' = group_values (snd k) ks xs"
  shows "map_of (zip ks' xs') k = map_of (zip ks xs) k"
  by (simp only: lookup_by_group [OF assms(1)] lookup_by_group [OF assms(2)] assms(3,4))

lemma cell_at_setitem: "cell_at (setitem df col v) col k = map_of (zip (index df) v) k"
  by (simp add: cell_at_def setitem_def map_of_setcol)

lemma aligned_feature_same_on_sorted:
  assumes "distinct ks" and "length xs = length ks" and "\<And>zs. length (f zs) = length zs"
    and "\<forall>t. sorted (map fst (group_keys t ks))"
    and "ks' = map ((!) ks) (date_order ks)" and "xs' = map ((!) xs) (date_order ks)"
  shows "map_of (zip ks' (reindex (groupby_apply f ks' xs') ks')) k =
         map_of (zip ks (reindex (groupby_apply f ks xs) ks)) k"
proof (rule lookup_same_groups)
  show "length (reindex (groupby_apply f ks xs) ks) = length ks"
    by simp
  show "length (reindex (groupby_apply f ks' xs') ks') = length ks'"
    by simp
  show "group_keys (snd k) ks' = group_keys (snd k) ks"
    using assms(4) unfolding assms(5) by (intro group_keys_sorted) simp
  have d': "distinct ks'"
  proof -
    have "distinct (date_order ks)"
      by (simp add: date_order_def)
    moreover have "inj_on ((!) ks) (set (date_order ks))"
      using assms(1) by (intro inj_on_nth) (simp_all add: date_order_def)
    ultimately show ?thesis
      by (simp add: assms(5) distinct_map)
  qed
  have l': "length xs' = length ks'"
    by (simp add: assms(5,6))
  have "group_values (snd k) ks' (reindex (groupby_apply f ks' xs') ks') =
      f (group_values (snd k) ks' xs')"
    using d' l' assms(3) by (rule group_values_reindex)
  also have "group_values (snd k) ks' xs' = group_values (snd k) ks xs"
    using assms(4,2) unfolding assms(5,6) by (intro group_values_sorted) simp_all
  also have "f (group_values (snd k) ks xs) =
      group_values (snd k) ks (reindex (groupby_apply f ks xs) ks)"
    using assms(1,2,3) by (rule group_values_reindex [symmetric])
  finally show "group_values (snd k) ks' (reindex (groupby_apply f ks' xs') ks') =
      group_values (snd k) ks (reindex (groupby_apply f ks xs) ks)" .
qed

lemma row_order_feature_same_on_sorted:
  assumes "length xs = length ks" and "\<And>zs. length (f zs) = length zs"
    and "\<forall>t. sorted (map fst (group_keys t ks))"
    and "ks' = map ((!) ks) (date_order ks)" and "xs' = map ((!) xs) (date_order ks)"
  shows "map_of (zip ks' (groupby_transform f ks' xs')) k =
         map_of (zip ks (groupby_transform f ks xs)) k"
proof (rule lookup_same_groups)
  show "length (groupby_transform f ks xs) = length ks"
    by simp
  show "length (groupby_transform f ks' xs') = length ks'"
    by simp
  show "group_keys (snd k) ks' = group_keys (snd k) ks"
    using assms(3) unfolding assms(4) by (intro group_keys_sorted) simp
  have l': "length xs' = length ks'"
    by (simp add: assms(4,5))
  have "group_values (snd k) ks' (groupby_transform f ks' xs') =
      f (group_values (snd k) ks' xs')"
    using l' assms(2) by (rule group_values_groupby_transform)
  also have "group_values (snd k) ks' xs' = group_values (snd k) ks xs"
    using assms(3,1) unfolding assms(4,5) by (intro group_values_sorted) simp_all
  also have "f (group_values (snd k) ks xs) =
      group_values (snd k) ks (groupby_transform f ks xs)"
    using assms(1,2) by (rule group_values_groupby_transform [symmetric])
  finally show "group_values (snd k) ks' (groupby_transform f ks' xs') =
      group_values (snd k) ks (groupby_transform f ks xs)" .
qed

section \<open>Row order and date order\<close>

text \<open>
  Claim C4, as the code has it. On a frame with unique row labels that has a Close
  column, each of the three windowed steps (daily return, rolling average with a
  window of at least 1, EMA with a span of at least 1) succeeds, keeps the rows, and
  inside every ticker group gives the values of its window function over the Close
  values of the group in the row order of the frame. No step looks at the dates. When
  the rows of every ticker already come in ascending date order, each step gives every
  row the value it would give with the rows of the frame sorted by date first.
\<close>

theorem windowed_features_follow_row_order:
  assumes "wf_panel df" and "distinct (index df)" and "1 \<le> window" and "1 \<le> span'"
    and "getitem df ''Close'' = Inr close"
  shows "(\<exists>df' ret. add_daily_return df = Inr df' \<and> index df' = index df \<and>
            getitem df' ''DailyReturn'' = Inr ret \<and>
            (\<forall>t. group_values t (index df) ret =
                   pct_change (group_values t (index df) close))) \<and>
         (\<exists>df' roll. add_rolling_average window df = Inr df' \<and> index df' = index df \<and>
            getitem df' (roll_avg_days_column window) = Inr roll \<and>
            (\<forall>t. group_values t (index df) roll =
                   rolling_mean (nat window) (group_values t (index df) close))) \<and>
         (\<exists>df' ema. add_ema span' df = Inr df' \<and> index df' = index df \<and>
            getitem df' (ema_column span') = Inr ema \<and>
            (\<forall>t. group_values t (index df) ema =
                   ewm_mean (ewm_alpha span') (group_values t (index df) close))) \<and>
         ((\<forall>t. sorted (map fst (group_keys t (index df)))) \<longrightarrow>
            (\<forall>k. feature_at add_daily_return ''DailyReturn'' (sort_by_date df) k =
                   feature_at add_daily_return ''DailyReturn'' df k \<and>
                 feature_at (add_rolling_average window) (roll_avg_days_column window)
                     (sort_by_date df) k =
                   feature_at (add_rolling_average window) (roll_avg_days_column window) df k \<and>
                 feature_at (add_ema span') (ema_column span') (sort_by_date df) k =
                   feature_at (add_ema span') (ema_column span') df k))"
proof (intro conjI impI allI)
  let ?ks = "index df"
  have len: "length close = length ?ks"
    using assms(1,5) by (rule wf_getitem_length)
  let ?S = "sort_by_date df"
  let ?ks' = "map ((!) ?ks) (date_order ?ks)"
  let ?close' = "map ((!) close) (date_order ?ks)"
  have wfS: "wf_panel ?S"
    using assms(1) by (rule wf_sort_by_date)
  have dS: "distinct (index ?S)"
    using assms(2) by (rule distinct_index_sort_by_date)
  have iS: "index ?S = ?ks'"
    by (rule index_sort_by_date)
  have cS: "getitem ?S ''Close'' = Inr ?close'"
    using assms(5) by (rule getitem_sort_by_date)
  {
    fix k
    assume sorted: "\<forall>t. sorted (map fst (group_keys t ?ks))"
    show "feature_at add_daily_return ''DailyReturn'' ?S k =
        feature_at add_daily_return ''DailyReturn'' df k"
      using row_order_feature_same_on_sorted
        [where f = pct_change and k = k, OF len _ sorted refl refl]
      by (simp add: feature_at_def add_daily_return_run [OF assms(5)]
          add_daily_return_run [OF cS] cell_at_setitem iS)
    show "feature_at (add_rolling_average window) (roll_avg_days_column window) ?S k =
        feature_at (add_rolling_average window) (roll_avg_days_column window) df k"
      using aligned_feature_same_on_sorted
        [where f = "rolling_mean (nat window)" and k = k, OF assms(2) len _ sorted refl refl]
      by (simp add: feature_at_def add_rolling_average_run [OF assms(1,2,3,5)]
          add_rolling_average_run [OF wfS dS assms(3) cS] cell_at_setitem iS)
    show "feature_at (add_ema span') (ema_column span') ?S k =
        feature_at (add_ema span') (ema_column span') df k"
      using aligned_feature_same_on_sorted
        [where f = "ewm_mean (ewm_alpha span')" and k = k, OF assms(2) len _ sorted refl refl]
      by (simp add: feature_at_def add_ema_run [OF assms(1,2,4,5)]
          add_ema_run [OF wfS dS assms(4) cS] cell_at_setitem iS)
  }
  show "\<exists>df' ret. add_daily_return df = Inr df' \<and> index df' = index df \<and>
            getitem df' ''DailyReturn'' = Inr ret \<and>
            (\<forall>t. group_values t ?ks ret = pct_change (group_values t ?ks close))"
  proof -
    let ?ret = "groupby_transform pct_change ?ks close"
    let ?df = "setitem df ''DailyReturn'' ?ret"
    have run: "add_daily_return df = Inr ?df"
      using assms(5) by (rule add_daily_return_run)
    have idx: "index ?df = index df" by simp
    have col: "getitem ?df ''DailyReturn'' = Inr ?ret"
      by (simp add: getitem_setitem)
    have grp: "\<forall>t. group_values t ?ks ?ret = pct_change (group_values t ?ks close)"
      using len by (intro allI group_values_groupby_transform) simp_all
    show ?thesis
      by (rule exI [of _ ?df], rule exI [of _ ?ret], intro conjI) (rule run idx col grp)+
  qed
  show "\<exists>df' roll. add_rolling_average window df = Inr df' \<and> index df' = index df \<and>
            getitem df' (roll_avg_days_column window) = Inr roll \<and>
            (\<forall>t. group_values t ?ks roll =
                   rolling_mean (nat window) (group_values t ?ks close))"
  proof -
    let ?roll = "reindex (groupby_apply (rolling_mean (nat window)) ?ks close) ?ks"
    let ?df = "setitem df (roll_avg_days_column window) ?roll"
    have run: "add_rolling_average window df = Inr ?df"
      using assms(1,2,3,5) by (rule add_rolling_average_run)
    have idx: "index ?df = index df" by simp
    have col: "getitem ?df (roll_avg_days_column window) = Inr ?roll"
      by (simp add: getitem_setitem)
    have grp: "\<forall>t. group_values t ?ks ?roll =
        rolling_mean (nat window) (group_values t ?ks close)"
      using assms(2) len by (intro allI group_values_reindex) simp_all
    show ?thesis
      by (rule exI [of _ ?df], rule exI [of _ ?roll], intro conjI) (rule run idx col grp)+
  qed
  show "\<exists>df' ema. add_ema span' df = Inr df' \<and> index df' = index df \<and>
            getitem df' (ema_column span') = Inr ema \<and>
            (\<forall>t. group_values t ?ks ema =
                   ewm_mean (ewm_alpha span') (group_values t ?ks close))"
  proof -
    let ?ema = "reindex (groupby_apply (ewm_mean (ewm_alpha span')) ?ks close) ?ks"
    let ?df = "setitem df (ema_column span') ?ema"
    have run: "add_ema span' df = Inr ?df"
      using assms(1,2,4,5) by (rule add_ema_run)
    have idx: "index ?df = index df" by simp
    have col: "getitem ?df (ema_column span') = Inr ?ema"
      by (simp add: getitem_setitem)
    have grp: "\<forall>t. group_values t ?ks ?ema =
        ewm_mean (ewm_alpha span') (group_values t ?ks close)"
      using assms(2) len by (intro allI group_values_reindex) simp_all
    show ?thesis
      by (rule exI [of _ ?df], rule exI [of _ ?ema], intro conjI) (rule run idx col grp)+
  qed
qed

lemma two_day_panel_facts:
  "wf_panel two_day_panel" "distinct (index two_day_panel)"
  "getitem two_day_panel ''Close'' = Inr [Some 1, Some 2, Some 5, Some 4]"
  "\<forall>t. sorted (map fst (group_keys t (index two_day_panel)))"
  by (simp_all add: wf_panel_def two_day_panel_def getitem_def group_keys_def)

theorem windowed_features_follow_row_order_witness:
  "wf_panel two_day_panel \<and> distinct (index two_day_panel) \<and> (1::int) \<le> 2 \<and>
   getitem two_day_panel ''Close'' = Inr [Some 1, Some 2, Some 5, Some 4] \<and>
   (\<forall>t. sorted (map fst (group_keys t (index two_day_panel)))) \<and>
   index (sort_by_date two_day_panel) =
     [(1, ''AAPL''), (1, ''MSFT''), (2, ''AAPL''), (2, ''MSFT'')] \<and>
   add_daily_return two_day_panel =
     Inr (setitem two_day_panel ''DailyReturn'' [None, Some 1, None, Some (- 1 / 5)]) \<and>
   add_rolling_average 2 two_day_panel =
     Inr (setitem two_day_panel ''RollAvg2Days'' [Some 1, Some (3 / 2), Some 5, Some (9 / 2)]) \<and>
   add_ema 2 two_day_panel =
     Inr (setitem two_day_panel ''EMA2'' [Some 1, Some (5 / 3), Some 5, Some (13 / 3)]) \<and>
   (\<exists>df' roll. add_rolling_average 2 two_day_panel = Inr df' \<and>
      index df' = index two_day_panel \<and>
      getitem df' (roll_avg_days_column 2) = Inr roll \<and>
      (\<forall>t. group_values t (index two_day_panel) roll =
             rolling_mean (nat 2)
               (group_values t (index two_day_panel) [Some 1, Some 2, Some 5, Some 4]))) \<and>
   feature_at (add_ema 2) (ema_column 2) (sort_by_date two_day_panel) (2, ''MSFT'') =
     feature_at (add_ema 2) (ema_column 2) two_day_panel (2, ''MSFT'')"
proof -
  have w: "(1::int) \<le> 2" by simp
  have s: "index (sort_by_date two_day_panel) =
     [(1, ''AAPL''), (1, ''MSFT''), (2, ''AAPL''), (2, ''MSFT'')]"
    by (simp add: sort_by_date_def date_order_def two_day_panel_def upt_rec)
  have run:
    "add_daily_return two_day_panel =
       Inr (setitem two_day_panel ''DailyReturn'' [None, Some 1, None, Some (- 1 / 5)])"
    "add_rolling_average 2 two_day_panel =
       Inr (setitem two_day_panel ''RollAvg2Days'' [Some 1, Some (3 / 2), Some 5, Some (9 / 2)])"
    "add_ema 2 two_day_panel =
       Inr (setitem two_day_panel ''EMA2'' [Some 1, Some (5 / 3), Some 5, Some (13 / 3)])"
    by (simp_all add: feature_eval two_day_panel_def)
  note inst = windowed_features_follow_row_order
      [OF two_day_panel_facts(1) two_day_panel_facts(2) w w two_day_panel_facts(3)]
  have a: "\<exists>df' roll. add_rolling_average 2 two_day_panel = Inr df' \<and>
      index df' = index two_day_panel \<and>
      getitem df' (roll_avg_days_column 2) = Inr roll \<and>
      (\<forall>t. group_values t (index two_day_panel) roll =
             rolling_mean (nat 2)
               (group_values t (index two_day_panel) [Some 1, Some 2, Some 5, Some 4]))"
    using inst by (elim conjE)
  have b: "feature_at (add_ema 2) (ema_column 2) (sort_by_date two_day_panel) (2, ''MSFT'') =
     feature_at (add_ema 2) (ema_column 2) two_day_panel (2, ''MSFT'')"
    using inst two_day_panel_facts(4) by (elim conjE) simp
  from two_day_panel_facts w s run a b show ?thesis
    by (intro conjI)
qed

text \<open>
  Claim C4 as stated fails on \<^const>\<open>unsorted_panel\<close>, whose two AAPL rows come with
  date 2 before date 1. On the row of date 2 the code gives no daily return, rolling
  average 1 and EMA 1; with the rows sorted by ascending date first, the same row
  would get daily return -2/3, rolling average 2 and EMA 5/3.
\<close>

theorem ascending_date_order_counterexample:
  "sort_by_date unsorted_panel =
     \<lparr>index = [(1, ''AAPL''), (2, ''AAPL'')], columns = [(''Close'', [Some 3, Some 1])]\<rparr> \<and>
   feature_at add_daily_return ''DailyReturn'' unsorted_panel (2, ''AAPL'') = Some None \<and>
   feature_at add_daily_return ''DailyReturn'' (sort_by_date unsorted_panel) (2, ''AAPL'') =
     Some (Some (- 2 / 3)) \<and>
   feature_at (add_rolling_average 2) ''RollAvg2Days'' unsorted_panel (2, ''AAPL'') =
     Some (Some 1) \<and>
   feature_at (add_rolling_average 2) ''RollAvg2Days'' (sort_by_date unsorted_panel)
     (2, ''AAPL'') = Some (Some 2) \<and>
   feature_at (add_ema 2) ''EMA2'' unsorted_panel (2, ''AAPL'') = Some (Some 1) \<and>
   feature_at (add_ema 2) ''EMA2'' (sort_by_date unsorted_panel) (2, ''AAPL'') =
     Some (Some (5 / 3))"
proof -
  have sorted: "sort_by_date unsorted_panel =
     \<lparr>index = [(1, ''AAPL''), (2, ''AAPL'')], columns = [(''Close'', [Some 3, Some 1])]\<rparr>"
    by (simp add: sort_by_date_def date_order_def unsorted_panel_def upt_rec)
  show ?thesis
    unfolding sorted
    by (intro conjI) (simp_all add: feature_at_def cell_at_def feature_eval unsorted_panel_def)
qed

section \<open>Row labels\<close>

lemma clean_step_index: "clean_step col df = Inr df' \<Longrightarrow> index df' = index df"
  by (auto simp: clean_step_def split: if_splits sum.splits)

lemma clean_loop_index: "clean_loop names df = Inr df' \<Longrightarrow> index df' = index df"
proof (induction names arbitrary: df)
  case Nil
  then show ?case by simp
next
  case (Cons c cs)
  then obtain df1 where s: "clean_step c df = Inr df1" and r: "clean_loop cs df1 = Inr df'"
    by (auto split: sum.splits)
  from Cons.IH [OF r] clean_step_index [OF s] show ?case by simp
qed

lemma clean_index: "clean df = Inr df' \<Longrightarrow> index df' = index df"
  unfolding clean_def by (rule clean_loop_index)

lemma setitem_series_index: "setitem_series df col s = Inr df' \<Longrightarrow> index df' = index df"
  by (auto simp: setitem_series_def split: if_splits)

lemma add_daily_return_index: "add_daily_return df = Inr df' \<Longrightarrow> index df' = index df"
  by (auto simp: add_daily_return_def split: sum.splits)

lemma add_rolling_average_index:
  "add_rolling_average window df = Inr df' \<Longrightarrow> index df' = index df"
  by (auto simp: add_rolling_average_def split: sum.splits if_splits
      dest: setitem_series_index)

lemma add_ema_index: "add_ema span' df = Inr df' \<Longrightarrow> index df' = index df"
  by (auto simp: add_ema_def split: sum.splits if_splits dest: setitem_series_index)

lemma add_time_series_analysis_index:
  "add_time_series_analysis w s df = Inr df' \<Longrightarrow> index df' = index df"
  by (auto simp: add_time_series_analysis_def split: sum.splits)

lemma transform_index:
  assumes "transform cfg file_path extraction_date_str df st = Inr (df', st')"
  shows "index df' = index df"
proof -
  from assms obtain df1 df2 df3 df4 where
    "clean df = Inr df1" "add_daily_return df1 = Inr df2"
    "add_rolling_average (roll_avg_days cfg) df2 = Inr df3"
    "add_ema (ema_span cfg) df3 = Inr df4"
    "add_time_series_analysis (roll_avg_days cfg) (ema_span cfg) df4 = Inr df'"
    by (auto simp: transform_def split: sum.splits)
  then show ?thesis
    using clean_index add_daily_return_index add_rolling_average_index add_ema_index
      add_time_series_analysis_index by metis
qed

subsection \<open>The labels that the raw files give\<close>

lemma read_tickers_labels:
  assumes "read_tickers st base_path tickers = Inr dfs"
  shows "list_all2 (\<lambda>t df. tagged_tickers df = replicate (length (tagged_dates df)) t \<and>
            (\<exists>f. st (base_path @ ''/'' @ t @ ''.csv'') = Some f \<and>
                 Date f = Some (tagged_dates df))) tickers dfs"
  using assms
proof (induction tickers arbitrary: dfs)
  case Nil
  then show ?case by simp
next
  case (Cons t ts)
  from Cons.prems obtain f df rest where
    f: "read_csv st (base_path @ ''/'' @ t @ ''.csv'') = Inr f"
    and df: "tag_ticker t f = Inr df"
    and rest: "read_tickers st base_path ts = Inr rest"
    and dfs: "dfs = df # rest"
    by (auto split: sum.splits)
  from f have "st (base_path @ ''/'' @ t @ ''.csv'') = Some f"
    by (simp add: read_csv_def split: option.splits)
  moreover from df have "Date f = Some (tagged_dates df)"
    and "tagged_tickers df = replicate (length (tagged_dates df)) t"
    by (auto simp: tag_ticker_def split: option.splits)
  ultimately show ?case
    using Cons.IH [OF rest] dfs by auto
qed

lemma zip_concat_tagged:
  assumes "list_all2 (\<lambda>t df. tagged_tickers df = replicate (length (tagged_dates df)) t \<and> P t df)
             tickers dfs"
  shows "zip (concat (map tagged_dates dfs)) (concat (map tagged_tickers dfs)) =
         concat (map (\<lambda>(t, df). map (\<lambda>d. (d, t)) (tagged_dates df)) (zip tickers dfs))"
  using assms
proof (induction tickers dfs rule: list_all2_induct)
  case Nil
  then show ?case by simp
next
  case (Cons t ts df dfs)
  have "zip (tagged_dates df) (replicate (length (tagged_dates df)) t) =
      map (\<lambda>d. (d, t)) (tagged_dates df)"
    by (induction "tagged_dates df") (simp_all add: zip_replicate2)
  with Cons show ?case by simp
qed

lemma distinct_labels:
  assumes "distinct tickers" and "length tickers = length dfs"
    and "\<And>df. df \<in> set dfs \<Longrightarrow> distinct (tagged_dates df)"
  shows "distinct (concat (map (\<lambda>(t, df). map (\<lambda>d. (d, t)) (tagged_dates df)) (zip tickers dfs)))"
  using assms(2,1,3)
proof (induction tickers dfs rule: list_induct2)
  case Nil
  then show ?case by simp
next
  case (Cons t ts df dfs)
  have one: "distinct (map (\<lambda>d. (d, t)) (tagged_dates df))"
    using Cons.prems(2) [of df] by (simp add: distinct_map inj_on_def)
  have rest: "distinct (concat (map (\<lambda>(t, df). map (\<lambda>d. (d, t)) (tagged_dates df)) (zip ts dfs)))"
    using Cons.prems by (intro Cons.IH) simp_all
  have "snd k \<in> set ts"
    if "k \<in> set (concat (map (\<lambda>(t, df). map (\<lambda>d. (d, t)) (tagged_dates df)) (zip ts dfs)))"
    for k
    using that by (auto dest: set_zip_leftD)
  then have apart: "set (map (\<lambda>d. (d, t)) (tagged_dates df)) \<inter>
      set (concat (map (\<lambda>(t, df). map (\<lambda>d. (d, t)) (tagged_dates df)) (zip ts dfs))) = {}"
    using Cons.prems(1) by fastforce
  show ?case
    using one rest apart by simp
qed

lemma read_and_concatenate_distinct:
  assumes "distinct tickers"
    and "\<forall>t \<in> set tickers. \<forall>f ds.
           st (raw_path file_path extraction_date_str t) = Some f \<and> Date f = Some ds \<longrightarrow>
           distinct ds"
    and "read_and_concatenate st file_path extraction_date_str tickers = Inr df"
  shows "distinct (index df)"
proof -
  let ?base = "get_path file_path ''extract'' @ ''/'' @ extraction_date_str"
  from assms(3) obtain dfs df_all where
    dfs: "read_tickers st ?base tickers = Inr dfs"
    and cat: "pd_concat dfs = Inr df_all"
    and df: "df = set_index df_all"
    by (auto simp: read_and_concatenate_def Let_def split: sum.splits)
  have all2: "list_all2 (\<lambda>t df. tagged_tickers df = replicate (length (tagged_dates df)) t \<and>
            (\<exists>f. st (?base @ ''/'' @ t @ ''.csv'') = Some f \<and>
                 Date f = Some (tagged_dates df))) tickers dfs"
    using dfs by (rule read_tickers_labels)
  have len: "length tickers = length dfs"
    using all2 by (rule list_all2_lengthD)
  have each: "distinct (tagged_dates d)" if "d \<in> set dfs" for d
  proof -
    from that obtain i where i: "i < length dfs" and d: "d = dfs ! i"
      by (auto simp: in_set_conv_nth)
    from all2 i len obtain f where
      "st (?base @ ''/'' @ tickers ! i @ ''.csv'') = Some f" "Date f = Some (tagged_dates d)"
      unfolding d by (auto simp: list_all2_conv_all_nth)
    moreover have "tickers ! i \<in> set tickers"
      using i len by simp
    ultimately show ?thesis
      using assms(2) by (auto simp: raw_path_def)
  qed
  have "index df = zip (concat (map tagged_dates dfs)) (concat (map tagged_tickers dfs))"
    using cat df by (auto simp: pd_concat_def set_index_def split: if_splits)
  also have "\<dots> = concat (map (\<lambda>(t, df). map (\<lambda>d. (d, t)) (tagged_dates df)) (zip tickers dfs))"
    using all2 by (rule zip_concat_tagged)
  finally show ?thesis
    using distinct_labels [OF assms(1) len each] by simp
qed

text \<open>
  Claim C7, as the code has it. When no ticker is listed twice and no raw file lists a
  date twice, the frame that \<^verbatim>\<open>_read_and_concatenate\<close> assembles has at most one row
  per (Date, Ticker). Every later step (clean, daily return, rolling average, EMA,
  crossover, and so the whole transform) returns a frame with the same row labels.
\<close>

theorem panel_keys_unique_when_raw_files_are:
  assumes "distinct tickers"
    and "\<forall>t \<in> set tickers. \<forall>f ds.
           st (raw_path file_path extraction_date_str t) = Some f \<and> Date f = Some ds \<longrightarrow>
           distinct ds"
    and "read_and_concatenate st file_path extraction_date_str tickers = Inr df"
  shows "distinct (index df) \<and>
         (\<forall>d d'. clean d = Inr d' \<longrightarrow> index d' = index d) \<and>
         (\<forall>d d'. add_daily_return d = Inr d' \<longrightarrow> index d' = index d) \<and>
         (\<forall>w d d'. add_rolling_average w d = Inr d' \<longrightarrow> index d' = index d) \<and>
         (\<forall>s d d'. add_ema s d = Inr d' \<longrightarrow> index d' = index d) \<and>
         (\<forall>w s d d'. add_time_series_analysis w s d = Inr d' \<longrightarrow> index d' = index d) \<and>
         (\<forall>cfg df' st'.
            transform cfg file_path extraction_date_str df st = Inr (df', st') \<longrightarrow>
            index df' = index df \<and> distinct (index df'))"
proof (intro conjI allI impI)
  show d: "distinct (index df)"
    using assms by (rule read_and_concatenate_distinct)
  fix cfg df' st'
  assume "transform cfg file_path extraction_date_str df st = Inr (df', st')"
  then show "index df' = index df"
    by (rule transform_index)
  with d show "distinct (index df')"
    by simp
qed (erule clean_index add_daily_return_index add_rolling_average_index add_ema_index
    add_time_series_analysis_index)+

theorem panel_keys_unique_when_raw_files_are_witness:
  "distinct [''AAPL'', ''MSFT''] \<and>
   two_day_store (raw_path ''data/'' ''2023_01_01'' ''AAPL'') =
     Some \<lparr>Date = Some [1, 2], Ticker = None, cols = [(''Close'', [Some 1, Some 2])]\<rparr> \<and>
   two_day_store (raw_path ''data/'' ''2023_01_01'' ''MSFT'') =
     Some \<lparr>Date = Some [1, 2], Ticker = None, cols = [(''Close'', [Some 5, Some 4])]\<rparr> \<and>
   distinct [1::int, 2] \<and>
   read_and_concatenate two_day_store ''data/'' ''2023_01_01'' [''AAPL'', ''MSFT''] =
     Inr two_day_panel \<and>
   distinct (index two_day_panel)"
proof -
  have t: "distinct [''AAPL'', ''MSFT'']"
    by simp
  have a: "two_day_store (raw_path ''data/'' ''2023_01_01'' ''AAPL'') =
     Some \<lparr>Date = Some [1, 2], Ticker = None, cols = [(''Close'', [Some 1, Some 2])]\<rparr>"
    and m: "two_day_store (raw_path ''data/'' ''2023_01_01'' ''MSFT'') =
     Some \<lparr>Date = Some [1, 2], Ticker = None, cols = [(''Close'', [Some 5, Some 4])]\<rparr>"
    by (simp_all add: raw_path_def get_path_def two_day_store_def)
  have f: "\<forall>t \<in> set [''AAPL'', ''MSFT'']. \<forall>f ds.
      two_day_store (raw_path ''data/'' ''2023_01_01'' t) = Some f \<and> Date f = Some ds \<longrightarrow>
      distinct ds"
    using a m by auto
  have r: "read_and_concatenate two_day_store ''data/'' ''2023_01_01'' [''AAPL'', ''MSFT''] =
     Inr two_day_panel"
    by (simp add: read_and_concatenate_def get_path_def two_day_store_def read_csv_def
        tag_ticker_def pd_concat_def union_names_def concat_column_def set_index_def
        two_day_panel_def)
  have "distinct (index two_day_panel)"
    using panel_keys_unique_when_raw_files_are [OF t f r] by (elim conjE)
  with t a m r show ?thesis
    by simp
qed

text \<open>
  Claim C7 as stated fails: the raw file of \<^const>\<open>duplicate_store\<close> lists date 1 twice,
  the assembled frame has two rows labelled (1, AAPL), and the transform runs through
  with them.
\<close>

theorem panel_keys_unique_counterexample:
  "read_and_concatenate duplicate_store ''data/'' ''2023_01_01'' [''AAPL''] =
     Inr \<lparr>index = [(1, ''AAPL''), (1, ''AAPL'')], columns = [(''Close'', [Some 1, Some 2])]\<rparr> \<and>
   \<not> distinct [(1::int, ''AAPL''), (1, ''AAPL'')] \<and>
   map_sum id (\<lambda>r. index (fst r))
     (run_transform two_day_config ''data/'' [''AAPL''] ''2023_01_01'' duplicate_store) =
     Inr [(1, ''AAPL''), (1, ''AAPL'')]"
proof -
  have r: "read_and_concatenate duplicate_store ''data/'' ''2023_01_01'' [''AAPL''] =
     Inr \<lparr>index = [(1, ''AAPL''), (1, ''AAPL'')], columns = [(''Close'', [Some 1, Some 2])]\<rparr>"
    by (simp add: read_and_concatenate_def get_path_def duplicate_store_def read_csv_def
        tag_ticker_def pd_concat_def union_names_def concat_column_def set_index_def)
  have "map_sum id (\<lambda>r. index (fst r))
     (run_transform two_day_config ''data/'' [''AAPL''] ''2023_01_01'' duplicate_store) =
     Inr [(1, ''AAPL''), (1, ''AAPL'')]"
    by (simp add: run_transform_def r transform_def two_day_config_def clean_def
        clean_step_def price_columns_def feature_eval add_time_series_analysis_def
        crossover_cell_def gt_cell_def lt_cell_def astype_int_def)
  with r show ?thesis by simp
qed

section \<open>The steps in sequence\<close>

lemma wf_clean:
  assumes "wf_panel df" and "clean df = Inr df'"
  shows "wf_panel df'"
proof -
  have "distinct (map fst (columns df))"
    using assms(1) by (simp add: wf_panel_def)
  from clean_closed [OF this] assms(2)
  have df': "df' = df\<lparr>columns := map (\<lambda>(n, ys). (n, fill n ys)) (columns df)\<rparr>"
    by simp
  show ?thesis
    using assms(1) unfolding df'
    by (auto simp: wf_panel_def list_all_iff comp_def case_prod_unfold)
qed

lemma wf_add_daily_return:
  assumes "wf_panel df" and "add_daily_return df = Inr df'"
  shows "wf_panel df'"
  using assms by (auto simp: add_daily_return_def split: sum.splits intro!: wf_setitem)

lemma wf_setitem_series_groupby:
  assumes "wf_panel df" and "setitem_series df col (groupby_apply f (index df) xs) = Inr df'"
  shows "wf_panel df'"
proof -
  let ?s = "groupby_apply f (index df) xs"
  have empty: "index df = [] \<Longrightarrow> ?s = []"
    by (simp add: groupby_apply_def group_names_def)
  have same: "map fst ?s = index df \<Longrightarrow> length (map snd ?s) = length (index df)"
    by (metis length_map)
  from assms(2) consider "df' = setitem df col (map snd ?s)"
      "map fst ?s = index df \<or> index df = []"
    | "df' = setitem df col (reindex ?s (index df))"
    by (auto simp: setitem_series_def split: if_splits)
  then show ?thesis
  proof cases
    case 1
    then have "length (map snd ?s) = length (index df)"
      using empty same by auto
    with assms(1) 1 show ?thesis
      by (simp only: wf_setitem)
  next
    case 2
    with assms(1) show ?thesis
      by (simp add: wf_setitem)
  qed
qed

lemma wf_add_rolling_average:
  assumes "wf_panel df" and "add_rolling_average window df = Inr df'"
  shows "wf_panel df'"
  using assms
  by (auto simp: add_rolling_average_def split: sum.splits if_splits
      intro: wf_setitem_series_groupby)

lemma wf_add_ema:
  assumes "wf_panel df" and "add_ema span' df = Inr df'"
  shows "wf_panel df'"
  using assms
  by (auto simp: add_ema_def split: sum.splits if_splits intro: wf_setitem_series_groupby)

lemma setitem_series_columns:
  assumes "setitem_series df col s = Inr df'"
  shows "\<exists>v. getitem df' col = Inr v"
    and "getitem df c = Inr u \<Longrightarrow> \<exists>v. getitem df' c = Inr v"
  using assms by (auto simp: setitem_series_def getitem_setitem split: if_splits)

text \<open>
  Inside \<^const>\<open>transform\<close> the crossover step always finds the two columns it reads:
  the two steps before it have just written them.
\<close>

lemma crossover_columns_after_features:
  assumes "add_rolling_average w df = Inr df1" and "add_ema s df1 = Inr df2"
  shows "\<exists>roll ema. getitem df2 (roll_avg_days_column w) = Inr roll \<and>
                    getitem df2 (ema_column s) = Inr ema"
proof -
  from assms(1) obtain s1 where "setitem_series df (roll_avg_days_column w) s1 = Inr df1"
    by (auto simp: add_rolling_average_def split: sum.splits if_splits)
  then obtain r where r: "getitem df1 (roll_avg_days_column w) = Inr r"
    using setitem_series_columns(1) by blast
  from assms(2) obtain s2 where s2: "setitem_series df1 (ema_column s) s2 = Inr df2"
    by (auto simp: add_ema_def split: sum.splits if_splits)
  from setitem_series_columns(1) [OF s2] setitem_series_columns(2) [OF s2 r]
  show ?thesis by blast
qed

lemma transform_crossover:
  assumes "wf_panel df"
    and "transform cfg file_path extraction_date_str df st = Inr (df', st')"
  shows "\<exists>roll ema. getitem df' (roll_avg_days_column (roll_avg_days cfg)) = Inr roll \<and>
           getitem df' (ema_column (ema_span cfg)) = Inr ema \<and>
           getitem df' ''Crossover'' = Inr (map2 crossover_cell roll ema) \<and>
           length roll = length (index df) \<and> length ema = length (index df)"
proof -
  let ?w = "roll_avg_days cfg" and ?s = "ema_span cfg"
  from assms(2) obtain df1 df2 df3 df4 where
    1: "clean df = Inr df1" and 2: "add_daily_return df1 = Inr df2"
    and 3: "add_rolling_average ?w df2 = Inr df3" and 4: "add_ema ?s df3 = Inr df4"
    and 5: "add_time_series_analysis ?w ?s df4 = Inr df'"
    by (auto simp: transform_def split: sum.splits)
  have wf4: "wf_panel df4"
    using assms(1) 1 2 3 4 wf_clean wf_add_daily_return wf_add_rolling_average wf_add_ema
    by blast
  have idx: "index df4 = index df"
    using 1 2 3 4 clean_index add_daily_return_index add_rolling_average_index add_ema_index
    by metis
  from crossover_columns_after_features [OF 3 4] obtain roll ema where
    r: "getitem df4 (roll_avg_days_column ?w) = Inr roll"
    and e: "getitem df4 (ema_column ?s) = Inr ema"
    by blast
  have df': "df' = setitem df4 ''Crossover'' (map2 crossover_cell roll ema)"
    using 5 add_time_series_analysis_run [OF r e] by simp
  have "getitem df' (roll_avg_days_column ?w) = Inr roll"
    "getitem df' (ema_column ?s) = Inr ema"
    "getitem df' ''Crossover'' = Inr (map2 crossover_cell roll ema)"
    using r e crossover_not_feature_name(1) [of ?w] crossover_not_feature_name(2) [of ?s]
    by (simp_all add: df' getitem_setitem)
  moreover have "length roll = length (index df)" "length ema = length (index df)"
    using wf_getitem_length [OF wf4 r] wf_getitem_length [OF wf4 e] idx by simp_all
  ultimately show ?thesis by blast
qed

text \<open>
  Whatever \<^const>\<open>transform\<close> returns is what it wrote, and the file has neither a
  Date nor a Ticker column.
\<close>

lemma transform_writes_columns_only:
  assumes "transform cfg file_path extraction_date_str df st = Inr (df', st')"
  shows "st' = save_to_csv st (get_path file_path ''transform'') [extraction_date_str] df'
              TARGET_FILE_NAME"
    and "Date (to_csv_index_False df') = None" and "Ticker (to_csv_index_False df') = None"
    and "cols (to_csv_index_False df') = columns df'"
  using assms by (auto simp: transform_def to_csv_index_False_def split: sum.splits)

text \<open>
  \<^const>\<open>read_and_concatenate\<close> has no check on the number of rows: once every file
  is there and has a Date column, it returns a frame, also one without rows.
\<close>

lemma read_tickers_length: "read_tickers st base_path tickers = Inr dfs \<Longrightarrow> length dfs = length tickers"
proof (induction tickers arbitrary: dfs)
  case Nil
  then show ?case by simp
next
  case (Cons t ts)
  then show ?case by (auto split: sum.splits)
qed

lemma read_and_concatenate_accepts_any_row_count:
  assumes "tickers \<noteq> []"
    and "read_tickers st (get_path file_path ''extract'' @ ''/'' @ extraction_date_str) tickers =
           Inr dfs"
  shows "read_and_concatenate st file_path extraction_date_str tickers =
           Inr \<lparr>index = zip (concat (map tagged_dates dfs)) (concat (map tagged_tickers dfs)),
                columns = map (\<lambda>col. (col, concat_column col dfs)) (union_names dfs)\<rparr>"
proof -
  have "dfs \<noteq> []"
    using read_tickers_length [OF assms(2)] assms(1) by auto
  then show ?thesis
    using assms(2) by (simp add: read_and_concatenate_def Let_def pd_concat_def set_index_def)
qed

section \<open>The files of a run\<close>

lemmas load_eval =
  read_and_concatenate_def get_path_def read_csv_def tag_ticker_def pd_concat_def
  union_names_def concat_column_def set_index_def

lemmas transform_eval =
  transform_def clean_def clean_step_def price_columns_def feature_eval
  add_time_series_analysis_def crossover_cell_def gt_cell_def lt_cell_def astype_int_def
  save_to_csv_def path_join_def TARGET_FILE_NAME_def

text \<open>
  Claim C6 on the code. Every raw file of \<^const>\<open>empty_store\<close> has zero rows. The
  frame assembled from them has zero rows, no step checks for that, every step
  succeeds on the empty columns, and the run returns the empty frame and writes it.
\<close>

theorem transform_of_empty_partition_returns_empty_table:
  "read_and_concatenate empty_store ''data/'' ''2023_01_01'' [''AAPL'', ''MSFT''] =
     Inr \<lparr>index = [], columns = cols empty_raw\<rparr> \<and>
   run_transform two_day_config ''data/'' [''AAPL'', ''MSFT''] ''2023_01_01'' empty_store =
     Inr (empty_result,
          empty_store(''data/transform/2023_01_01/transformed_data.csv'' \<mapsto>
            to_csv_index_False empty_result))"
proof -
  have r: "read_and_concatenate empty_store ''data/'' ''2023_01_01'' [''AAPL'', ''MSFT''] =
     Inr \<lparr>index = [], columns = cols empty_raw\<rparr>"
    by (simp add: load_eval empty_store_def empty_raw_def)
  have "transform two_day_config ''data/'' ''2023_01_01''
      \<lparr>index = [], columns = cols empty_raw\<rparr> empty_store =
     Inr (empty_result,
          empty_store(''data/transform/2023_01_01/transformed_data.csv'' \<mapsto>
            to_csv_index_False empty_result))"
    by (simp add: transform_eval get_path_def two_day_config_def empty_raw_def
        empty_result_def)
  with r show ?thesis
    by (simp add: run_transform_def)
qed

text \<open>
  Claim C9 on the code. The run on \<^const>\<open>scenario_store\<close> succeeds. The frame it returns
  has (Date, Ticker) as row labels; the file it writes has the six raw value columns
  and the four derived columns and neither a Date nor a Ticker column, and that is what
  the loader reads back.
\<close>

theorem consolidated_file_has_no_date_and_no_ticker:
  "run_transform two_day_config ''data/'' [''AAPL'', ''MSFT''] ''2023_01_01'' scenario_store =
     Inr (scenario_result,
          scenario_store(''data/transform/2023_01_01/transformed_data.csv'' \<mapsto>
            to_csv_index_False scenario_result)) \<and>
   load (scenario_store(''data/transform/2023_01_01/transformed_data.csv'' \<mapsto>
            to_csv_index_False scenario_result)) ''data/'' ''2023_01_01'' =
     Inr \<lparr>Date = None, Ticker = None, cols = columns scenario_result\<rparr> \<and>
   map fst (columns scenario_result) =
     [''Open'', ''High'', ''Low'', ''Close'', ''Adj Close'', ''Volume'', ''DailyReturn'',
      ''RollAvg2Days'', ''EMA2'', ''Crossover'']"
proof -
  let ?raw = "\<lparr>index = [(1, ''AAPL''), (2, ''AAPL''), (3, ''AAPL''),
               (1, ''MSFT''), (2, ''MSFT''), (3, ''MSFT'')],
      columns =
        [(''Open'', [Some 1, Some 2, Some 3, Some 1, Some 2, Some 3]),
         (''High'', [Some 2, Some 3, Some 4, Some 2, Some 3, Some 4]),
         (''Low'', [Some 0, Some 1, Some 2, Some 0, Some 1, Some 2]),
         (''Close'', [Some 1, Some 2, Some 3, Some 1, Some 2, Some 3]),
         (''Adj Close'', [Some 1, Some 2, Some 3, Some 1, Some 2, Some 3]),
         (''Volume'', [Some 100, Some 200, Some 300, Some 100, Some 200, Some 300])]\<rparr>"
  have r: "read_and_concatenate scenario_store ''data/'' ''2023_01_01'' [''AAPL'', ''MSFT''] =
     Inr ?raw"
    by (simp add: load_eval scenario_store_def scenario_raw_def)
  have t: "transform two_day_config ''data/'' ''2023_01_01'' ?raw scenario_store =
     Inr (scenario_result,
          scenario_store(''data/transform/2023_01_01/transformed_data.csv'' \<mapsto>
            to_csv_index_False scenario_result))"
    by (simp add: transform_eval get_path_def two_day_config_def scenario_result_def)
  have l: "load (scenario_store(''data/transform/2023_01_01/transformed_data.csv'' \<mapsto>
            to_csv_index_False scenario_result)) ''data/'' ''2023_01_01'' =
     Inr \<lparr>Date = None, Ticker = None, cols = columns scenario_result\<rparr>"
    by (simp add: load_def get_path_def read_csv_def SOURCE_FILE_NAME_def
        to_csv_index_False_def)
  have n: "map fst (columns scenario_result) =
     [''Open'', ''High'', ''Low'', ''Close'', ''Adj Close'', ''Volume'', ''DailyReturn'',
      ''RollAvg2Days'', ''EMA2'', ''Crossover'']"
    by (simp add: scenario_result_def)
  from r t l n show ?thesis
    by (simp add: run_transform_def)
qed

end
